theory Spec2Isabelle
  imports Main "HOL-Library.Sublist"
begin

section \<open>Strings as the scraper uses them\<close>

text \<open>
  A JavaScript string is modelled as a \<^typ>\<open>string\<close>, one \<^typ>\<open>char\<close> per code unit; the
  model covers code units below 256. \<open>is_space\<close> is the class \<open>\s\<close> of the regular
  expressions and the set that \<open>String.prototype.trim\<close> strips (tab, line feed, vertical
  tab, form feed, carriage return, space, no-break space).
\<close>

definition is_space :: "char \<Rightarrow> bool" where
  "is_space c = (c \<in> set [CHR 0x09, CHR 0x0A, CHR 0x0B, CHR 0x0C, CHR 0x0D, CHR 0x20, CHR 0xA0])"

definition is_digit :: "char \<Rightarrow> bool" where
  "is_digit c = (let n = of_char c :: nat in 48 \<le> n \<and> n \<le> 57)"

definition is_upper :: "char \<Rightarrow> bool" where
  "is_upper c = (let n = of_char c :: nat in 65 \<le> n \<and> n \<le> 90)"

definition is_lower :: "char \<Rightarrow> bool" where
  "is_lower c = (let n = of_char c :: nat in 97 \<le> n \<and> n \<le> 122)"

definition is_alpha :: "char \<Rightarrow> bool" where
  "is_alpha c = (is_upper c \<or> is_lower c)"

text \<open>The class \<open>\w\<close>, which decides the word boundary \<open>\b\<close>.\<close>

definition is_word :: "char \<Rightarrow> bool" where
  "is_word c = (is_alpha c \<or> is_digit c \<or> c = CHR ''_'')"

definition trim :: "string \<Rightarrow> string" where
  "trim s = rev (dropWhile is_space (rev (dropWhile is_space s)))"

text \<open>
  \<open>toLowerCase\<close> on code units below 256: the ASCII capitals and the Latin-1 capitals
  \<open>0xC0..0xDE\<close> (but the multiplication sign \<open>0xD7\<close>) move up by 32.
\<close>

definition lower_char :: "char \<Rightarrow> char" where
  "lower_char c =
     (let n = of_char c :: nat
      in if (65 \<le> n \<and> n \<le> 90) \<or> (192 \<le> n \<and> n \<le> 222 \<and> n \<noteq> 215) then char_of (n + 32) else c)"

definition toLowerCase :: "string \<Rightarrow> string" where
  "toLowerCase s = map lower_char s"

text \<open>\<open>s.includes(t)\<close>: \<open>t\<close> occurs in \<open>s\<close> as a contiguous substring.\<close>

fun includes_str :: "string \<Rightarrow> string \<Rightarrow> bool" where
  "includes_str [] t = (t = [])"
| "includes_str (c # cs) t = (prefix t (c # cs) \<or> includes_str cs t)"

text \<open>\<open>xs.join(sep)\<close> on an array of strings.\<close>

fun join :: "string \<Rightarrow> string list \<Rightarrow> string" where
  "join sep [] = []"
| "join sep [x] = x"
| "join sep (x # y # ys) = x @ sep @ join sep (y # ys)"

section \<open>The platform the scraper runs on\<close>

subsection \<open>The URL class\<close>

text \<open>
  A parsed URL record of the WHATWG URL class, as far as \<open>normalizeUrl\<close> reads and
  writes it. \<open>url_host\<close> is the whole authority as it is serialised (credentials, host,
  port), \<open>None\<close> for a null host. \<open>url_path\<close> is the serialised path (what the
  \<open>pathname\<close> getter returns); \<open>url_opaque\<close> says the path is opaque
  (as in \<open>mailto:a@b\<close>). \<open>url_query\<close> and \<open>url_fragment\<close> are \<open>None\<close> when null.
\<close>

record url =
  url_scheme :: string
  url_host :: "string option"
  url_path :: string
  url_opaque :: bool
  url_query :: "string option"
  url_fragment :: "string option"

text \<open>
  \<open>url.toString()\<close>, the URL serialiser: scheme, colon, \<open>//\<close> and the authority when the
  host is not null (when it is null and a non-opaque path starts with two slashes, \<open>/.\<close>
  is written first), the path, \<open>?\<close> and the query, \<open>#\<close> and the fragment.
\<close>

definition URL_toString :: "url \<Rightarrow> string" where
  "URL_toString u =
     url_scheme u @ '':'' @
     (case url_host u of
        Some h \<Rightarrow> ''//'' @ h
      | None \<Rightarrow> if \<not> url_opaque u \<and> prefix ''//'' (url_path u) then ''/.'' else []) @
     url_path u @
     (case url_query u of None \<Rightarrow> [] | Some q \<Rightarrow> ''?'' @ q) @
     (case url_fragment u of None \<Rightarrow> [] | Some f \<Rightarrow> ''#'' @ f)"

text \<open>
  The assignment \<open>url.hash = ""\<close>: the fragment becomes null; on a URL with an opaque
  path and a null query the trailing spaces of the path are stripped as well.
\<close>

definition URL_clear_hash :: "url \<Rightarrow> url" where
  "URL_clear_hash u =
     (let u' = u\<lparr>url_fragment := None\<rparr>
      in if url_opaque u' \<and> url_query u' = None
         then u'\<lparr>url_path := rev (dropWhile (\<lambda>c. c = CHR 0x20) (rev (url_path u')))\<rparr>
         else u')"

text \<open>
  The assignment \<open>url.pathname = v\<close>. The first step of the pathname setter of the URL
  standard is: if the URL has an opaque path, return; so nothing happens on such a URL
  (\<open>mailto:\<close>, \<open>data:\<close>, \<open>javascript:\<close> and the like). Otherwise the path is replaced
  by \<open>v\<close> parsed as a path. \<open>normalizeUrl\<close> only ever assigns the current path without
  its last slash, which parses to itself.
\<close>

definition URL_set_pathname :: "url \<Rightarrow> string \<Rightarrow> url" where
  "URL_set_pathname u v = (if url_opaque u then u else u\<lparr>url_path := v\<rparr>)"

subsection \<open>Parsed pages, responses, and the platform record\<close>

text \<open>
  An element of a page loaded by cheerio, as far as the scraper reads it: its text
  (\<open>.text()\<close>), its attributes (\<open>.attr(name)\<close>, \<open>None\<close> for \<open>undefined\<close>) and the text
  of \<open>.closest("section, table, div")\<close> (empty when there is no such ancestor).
  A page answers a selector with the elements that match it, in document order.
\<close>

record element =
  el_text :: string
  el_attr :: "string \<Rightarrow> string option"
  el_closest_text :: string

record page =
  select :: "string \<Rightarrow> element list"

text \<open>
  What \<open>await fetch(...)\<close> and \<open>await res.text()\<close> give: the promise of \<open>fetch\<close> rejects
  with a message, or there is a response with a status and a body (\<open>None\<close> when reading
  the body rejects). \<open>res.ok\<close> is a status from 200 to 299.
\<close>

datatype fetch_result = FetchRejected string | FetchResponse nat "string option"

definition res_ok :: "nat \<Rightarrow> bool" where
  "res_ok status = (200 \<le> status \<and> status \<le> 299)"

text \<open>
  Everything \<open>server.js\<close> takes from outside itself is a field of the platform:
  \<^item> \<open>URL_parse raw\<close> is \<open>new URL(raw)\<close>, \<open>None\<close> when the constructor throws;
  \<^item> \<open>URL_resolve href base\<close> is \<open>new URL(href, base).toString()\<close>, \<open>None\<close> when it throws;
  \<^item> \<open>Date_parse iso\<close> is \<open>new Date(iso).getTime()\<close> in milliseconds, \<open>None\<close> for \<open>NaN\<close>;
  \<^item> \<open>tz_offset t\<close> is the offset of the process's local time zone from UTC, in minutes
    east of Greenwich, at the instant \<open>t\<close>;
  \<^item> \<open>cheerio_load html\<close> is \<open>cheerio.load(html)\<close>;
  \<^item> \<open>fetch n u\<close> is the outcome of the \<open>n\<close>-th call of \<open>fetch\<close> of one crawl, made for
    the URL \<open>u\<close> (the network may answer the same URL differently at different calls);
  \<^item> \<open>urls_txt\<close> is the content of \<open>urls.txt\<close>, \<open>None\<close> when the file does not exist.
\<close>

record platform =
  URL_parse :: "string \<Rightarrow> url option"
  URL_resolve :: "string \<Rightarrow> string \<Rightarrow> string option"
  Date_parse :: "string \<Rightarrow> int option"
  tz_offset :: "int \<Rightarrow> int"
  cheerio_load :: "string \<Rightarrow> page"
  fetch :: "nat \<Rightarrow> string \<Rightarrow> fetch_result"
  urls_txt :: "string option"

section \<open>Helpers of server.js\<close>

subsection \<open>normalizeUrl\<close>

text \<open>
  Lines 19 to 22, on the URL object: the fragment is cleared, and a path other than \<open>/\<close>
  that ends with a slash is assigned again without its last character
  (\<open>slice(0, -1)\<close>).
\<close>

definition normalize_url_object :: "url \<Rightarrow> url" where
  "normalize_url_object url0 =
     (let url1 = URL_clear_hash url0
      in if url_path url1 \<noteq> ''/'' \<and> suffix ''/'' (url_path url1)
         then URL_set_pathname url1 (butlast (url_path url1))
         else url1)"

text \<open>
  \<open>normalizeUrl(raw)\<close>, lines 16 to 27: \<open>null\<close> (here \<open>None\<close>) when the constructor
  throws, otherwise the serialisation of the normalised URL object.
\<close>

definition normalizeUrl :: "platform \<Rightarrow> string \<Rightarrow> string option" where
  "normalizeUrl pf raw =
     (case URL_parse pf raw of
        None \<Rightarrow> None
      | Some url0 \<Rightarrow> Some (URL_toString (normalize_url_object url0)))"

subsection \<open>extractTitle\<close>

text \<open>\<open>$(sel).first().text()\<close> and \<open>$(sel).text()\<close> on the elements a selector matched.\<close>

definition first_text :: "element list \<Rightarrow> string" where
  "first_text els = (case els of [] \<Rightarrow> [] | e # _ \<Rightarrow> el_text e)"

definition all_text :: "element list \<Rightarrow> string" where
  "all_text els = concat (map el_text els)"

text \<open>Lines 29 to 33: the first of three trimmed texts that is not empty (\<open>||\<close>).\<close>

definition extractTitle :: "page \<Rightarrow> string" where
  "extractTitle p =
     (let a = trim (first_text (select p ''main h1''))
      in if a \<noteq> [] then a
         else let b = trim (first_text (select p ''h1''))
              in if b \<noteq> [] then b else trim (all_text (select p ''title'')))"

subsection \<open>Dates\<close>

text \<open>The decimal digits of a natural number, as template strings and \<open>Intl\<close> print it.\<close>

fun show_nat :: "nat \<Rightarrow> string" where
  "show_nat n = (if n < 10 then [char_of (48 + n)] else show_nat (n div 10) @ [char_of (48 + n mod 10)])"

declare show_nat.simps [simp del]

text \<open>
  The date (year, month, day) of the proleptic Gregorian calendar that is \<open>z\<close> days after
  1970-01-01, computed by eras of 400 years that start on 1 March.
\<close>

definition civil_from_days :: "int \<Rightarrow> int \<times> int \<times> int" where
  "civil_from_days z0 =
     (let z = z0 + 719468;
          era = z div 146097;
          doe = z mod 146097;
          yoe = (doe - doe div 1460 + doe div 36524 - doe div 146096) div 365;
          doy = doe - (365 * yoe + yoe div 4 - yoe div 100);
          mp = (5 * doy + 2) div 153;
          d = doy - (153 * mp + 2) div 5 + 1;
          m = (if mp < 10 then mp + 3 else mp - 9);
          y = yoe + era * 400 + (if m \<le> 2 then 1 else 0)
      in (y, m, d))"

text \<open>
  \<open>date.toLocaleDateString("en-US")\<close> for the instant \<open>t\<close> (milliseconds since the epoch):
  the calendar date of \<open>t\<close> in the local time zone of the process, printed as
  month/day/year without leading zeros. The model prints years from 1 on.
\<close>

definition toLocaleDateString_en_US :: "platform \<Rightarrow> int \<Rightarrow> string" where
  "toLocaleDateString_en_US pf t =
     (let local = t + tz_offset pf t * 60000;
          ymd = civil_from_days (local div 86400000)
      in show_nat (nat (fst (snd ymd))) @ ''/'' @ show_nat (nat (snd (snd ymd))) @ ''/'' @
         show_nat (nat (fst ymd)))"

subsection \<open>The regular expressions of extractLastUpdated\<close>

text \<open>\<open>/^\d{2}\/\d{2}\/\d{4}$/\<close>: two digits, slash, two digits, slash, four digits.\<close>

definition is_mmddyyyy :: "string \<Rightarrow> bool" where
  "is_mmddyyyy s =
     (length s = 10 \<and> list_all is_digit (take 2 s) \<and> s ! 2 = CHR ''/'' \<and>
      list_all is_digit (take 2 (drop 3 s)) \<and> s ! 5 = CHR ''/'' \<and> list_all is_digit (drop 6 s))"

text \<open>
  The group \<open>([A-Za-z]+\s+\d{1,2},\s+\d{4})\<close> matched at the start of \<open>s\<close>; the result is
  the matched text. Every quantifier of the group is followed by a character outside its
  own class, so the greedy match is the only one and no backtracking is lost.
\<close>

definition match_date :: "string \<Rightarrow> string option" where
  "match_date s =
     (let w = takeWhile is_alpha s; r1 = dropWhile is_alpha s;
          sp1 = takeWhile is_space r1; r2 = dropWhile is_space r1;
          dd = takeWhile is_digit (take 2 r2); r3 = drop (length dd) r2;
          sp2 = takeWhile is_space (drop 1 r3); r4 = dropWhile is_space (drop 1 r3);
          yyyy = take 4 r4
      in if w \<noteq> [] \<and> sp1 \<noteq> [] \<and> dd \<noteq> [] \<and> prefix '','' r3 \<and> sp2 \<noteq> [] \<and>
            length yyyy = 4 \<and> list_all is_digit yyyy
         then Some (w @ sp1 @ dd @ '','' @ sp2 @ yyyy)
         else None)"

text \<open>
  \<open>/Last\s*updated[:\s]*([A-Za-z]+\s+\d{1,2},\s+\d{4})/i\<close> matched at the start of \<open>s\<close>,
  and \<open>text.match(...)\<close>, which tries every start from the left; the result is group 1.
\<close>

definition match_last_updated_at :: "string \<Rightarrow> string option" where
  "match_last_updated_at s =
     (if toLowerCase (take 4 s) = ''last''
      then let r1 = dropWhile is_space (drop 4 s)
           in if toLowerCase (take 7 r1) = ''updated''
              then match_date (dropWhile (\<lambda>c. c = CHR '':'' \<or> is_space c) (drop 7 r1))
              else None
      else None)"

fun search_last_updated :: "string \<Rightarrow> string option" where
  "search_last_updated [] = None"
| "search_last_updated (c # cs) =
     (case match_last_updated_at (c # cs) of
        Some d \<Rightarrow> Some d
      | None \<Rightarrow> search_last_updated cs)"

text \<open>
  \<open>/\b([A-Za-z]+\s+\d{1,2},\s+\d{4})\b/\<close>: the group between two word boundaries. The
  group starts with a letter, so the first boundary asks that the character before is no
  word character (\<open>prev_word\<close> says it is one); the group ends with a digit, so the second
  asks that no word character follows.
\<close>

definition match_loose_at :: "bool \<Rightarrow> string \<Rightarrow> string option" where
  "match_loose_at prev_word s =
     (if prev_word then None
      else case match_date s of
             None \<Rightarrow> None
           | Some d \<Rightarrow>
               (case drop (length d) s of
                  [] \<Rightarrow> Some d
                | c # _ \<Rightarrow> if is_word c then None else Some d))"

fun search_loose :: "bool \<Rightarrow> string \<Rightarrow> string option" where
  "search_loose prev_word [] = None"
| "search_loose prev_word (c # cs) =
     (case match_loose_at prev_word (c # cs) of
        Some d \<Rightarrow> Some d
      | None \<Rightarrow> search_loose (is_word c) cs)"

subsection \<open>extractLastUpdated\<close>

text \<open>
  Lines 37 to 52, entered when \<open>localTimeEl.length\<close> is not zero: the trimmed text of the
  matched elements when it has the shape MM/DD/YYYY; otherwise the \<open>datetime\<close> attribute
  of the first of them, when it is not empty and parses to a valid date, printed by
  \<open>toLocaleDateString("en-US")\<close>.
\<close>

definition local_time_date :: "platform \<Rightarrow> element list \<Rightarrow> string option" where
  "local_time_date pf localTimeEl =
     (case localTimeEl of
        [] \<Rightarrow> None
      | e # _ \<Rightarrow>
          let textDate = trim (all_text localTimeEl)
          in if is_mmddyyyy textDate then Some textDate
             else (case el_attr e ''datetime'' of
                     None \<Rightarrow> None
                   | Some isoStr \<Rightarrow>
                       if isoStr = [] then None
                       else (case Date_parse pf isoStr of
                               None \<Rightarrow> None
                             | Some t \<Rightarrow> Some (toLocaleDateString_en_US pf t))))"

text \<open>Lines 55 to 72: the loop over the six selectors, the first match wins.\<close>

definition date_selectors :: "string list" where
  "date_selectors = [''.content-footer p'', ''.content-footer'', ''.main p'', ''main'', ''article'', ''header'']"

fun scan_selectors :: "page \<Rightarrow> string list \<Rightarrow> string option" where
  "scan_selectors p [] = None"
| "scan_selectors p (sel # sels) =
     (case search_last_updated (all_text (select p sel)) of
        Some d \<Rightarrow> Some (trim d)
      | None \<Rightarrow> scan_selectors p sels)"

text \<open>
  \<open>extractLastUpdated($, url)\<close>, lines 35 to 85. The argument \<open>url\<close> only appears in the
  warning printed before \<open>"UNKNOWN"\<close> is returned; console output is not modelled.
\<close>

definition extractLastUpdated :: "platform \<Rightarrow> page \<Rightarrow> string" where
  "extractLastUpdated pf p =
     (case local_time_date pf (select p ''local-time[datetime]'') of
        Some d \<Rightarrow> d
      | None \<Rightarrow>
          (case scan_selectors p date_selectors of
             Some d \<Rightarrow> d
           | None \<Rightarrow>
               (case search_loose False (all_text (select p ''body'')) of
                  Some d \<Rightarrow> trim d
                | None \<Rightarrow> ''UNKNOWN'')))"

subsection \<open>isSupportedCountryLink and extractSidebarUrls\<close>

text \<open>Lines 87 to 107.\<close>

definition isSupportedCountryLink :: "element \<Rightarrow> bool" where
  "isSupportedCountryLink a =
     (let text = toLowerCase (trim (el_text a));
          href = toLowerCase (case el_attr a ''href'' of None \<Rightarrow> [] | Some h \<Rightarrow> h)
      in if includes_str text ''supported countries'' \<or>
            includes_str text ''supported regions'' \<or>
            includes_str text ''supported country'' \<or>
            includes_str text ''countries/regions'' \<or>
            includes_str text ''country/region'' \<or>
            includes_str href ''country-region'' \<or>
            (includes_str href ''availability'' \<and> includes_str href ''country'')
         then True
         else let parentText = toLowerCase (el_closest_text a)
              in includes_str parentText ''supported countries'' \<or>
                 includes_str parentText ''supported regions'' \<or>
                 includes_str parentText ''country/region'')"

text \<open>
  A JavaScript \<open>Set\<close> keeps its members in insertion order and \<open>Array.from\<close> reads them
  in that order: the set \<open>links\<close> is a list without repetition, \<open>Set_add\<close> is
  \<open>links.add\<close>. Its members are results of \<open>normalizeUrl\<close>: strings or \<open>null\<close>.
\<close>

definition Set_add :: "'a list \<Rightarrow> 'a \<Rightarrow> 'a list" where
  "Set_add xs x = (if x \<in> set xs then xs else xs @ [x])"

definition sidebar_selectors :: "string list" where
  "sidebar_selectors =
     [''nav[data-bi-name='' @ [CHR 0x22] @ ''toc'' @ [CHR 0x22] @ ''] a[href]'',
      ''nav[role='' @ [CHR 0x22] @ ''navigation'' @ [CHR 0x22] @ ''] a[href]'',
      ''aside a[href]'']"

text \<open>The callback of \<open>.each\<close>, lines 119 to 135, on the set \<open>links\<close> and one element.\<close>

definition visit_anchor :: "platform \<Rightarrow> string \<Rightarrow> string option list \<Rightarrow> element \<Rightarrow> string option list" where
  "visit_anchor pf baseUrl links a =
     (case el_attr a ''href'' of
        None \<Rightarrow> links
      | Some href \<Rightarrow>
          if href = [] \<or> prefix ''#'' href then links
          else (case URL_resolve pf href baseUrl of
                  None \<Rightarrow> links
                | Some absUrl \<Rightarrow>
                    if \<not> prefix ''https://learn.microsoft.com/'' absUrl then links
                    else if isSupportedCountryLink a then links
                    else Set_add links (normalizeUrl pf absUrl)))"

text \<open>
  \<open>extractSidebarUrls($, baseUrl)\<close>, lines 109 to 139: the three selectors in order, the
  elements of each in document order, all into one set.
\<close>

definition extractSidebarUrls :: "platform \<Rightarrow> page \<Rightarrow> string \<Rightarrow> string option list" where
  "extractSidebarUrls pf p baseUrl =
     foldl (visit_anchor pf baseUrl) [] (concat (map (select p) sidebar_selectors))"

section \<open>The scraper\<close>

subsection \<open>State of one crawl\<close>

record page_record =
  Title :: string
  URL :: string
  LastUpdated :: string

text \<open>
  The variables of \<open>scrapeAll\<close> that the loop changes. \<open>fetchLog\<close> is not a variable of
  the source: it lists the URLs given to \<open>fetch\<close> (line 178), in call order, and is the
  trace that statements about fetching speak of. \<open>seedSet\<close> never changes and is passed
  beside the state.
\<close>

record crawl_state =
  visited :: "string set"
  queued :: "string set"
  queue :: "string list"
  seedResults :: "page_record list"
  discoveredResults :: "page_record list"
  pageCount :: nat
  fetchLog :: "string list"

subsection \<open>Reading the seeds\<close>

text \<open>\<open>content.split(/\r?\n/)\<close>: the pieces between line feeds, each optionally preceded by a carriage return.\<close>

fun split_lines :: "string \<Rightarrow> string list" where
  "split_lines [] = [[]]"
| "split_lines (c # cs) =
     (if c = CHR 0x0A then [] # split_lines cs
      else if c = CHR 0x0D \<and> take 1 cs = [CHR 0x0A] then [] # split_lines (drop 1 cs)
      else (case split_lines cs of
              [] \<Rightarrow> [[c]]
            | l # ls \<Rightarrow> (c # l) # ls))"

text \<open>\<open>.filter(Boolean)\<close> on strings and \<open>null\<close>: \<open>null\<close> and the empty string go.\<close>

fun truthy :: "string option list \<Rightarrow> string list" where
  "truthy [] = []"
| "truthy (None # xs) = truthy xs"
| "truthy (Some x # xs) = (if x = [] then truthy xs else x # truthy xs)"

text \<open>Lines 149 to 154: \<open>rawList\<close> and \<open>seedUrls\<close> from the content of the file.\<close>

definition rawList_of :: "string \<Rightarrow> string list" where
  "rawList_of content = filter (\<lambda>l. l \<noteq> []) (map trim (split_lines content))"

definition seedUrls_of :: "platform \<Rightarrow> string \<Rightarrow> string list" where
  "seedUrls_of pf content = truthy (map (normalizeUrl pf) (rawList_of content))"

text \<open>Lines 155 to 166: the state before the loop.\<close>

definition initial_state :: "string list \<Rightarrow> crawl_state" where
  "initial_state seedUrls =
     \<lparr>visited = {}, queued = set seedUrls, queue = seedUrls,
      seedResults = [], discoveredResults = [], pageCount = 0, fetchLog = []\<rparr>"

subsection \<open>One iteration of the loop\<close>

text \<open>
  Lines 213 to 219 for one member \<open>u\<close> of \<open>extraUrls\<close>. \<open>normalizeUrl(null)\<close> gives the
  constructor the string \<open>"null"\<close>. The counter \<open>added\<close> only feeds a log line.
\<close>

definition enqueue_link :: "platform \<Rightarrow> crawl_state \<Rightarrow> string option \<Rightarrow> crawl_state" where
  "enqueue_link pf s u =
     (case normalizeUrl pf (case u of None \<Rightarrow> ''null'' | Some r \<Rightarrow> r) of
        None \<Rightarrow> s
      | Some norm \<Rightarrow>
          if norm = [] \<or> norm \<in> visited s \<or> norm \<in> queued s then s
          else s\<lparr>queued := insert norm (queued s), queue := queue s @ [norm]\<rparr>)"

text \<open>
  Lines 176 to 189: the \<open>n\<close>-th fetch, for \<open>current\<close>. \<open>None\<close> when the iteration ends at
  one of the two \<open>continue\<close> statements: the fetch or the reading of the body throws, or
  the status is not a success.
\<close>

definition fetch_html :: "platform \<Rightarrow> nat \<Rightarrow> string \<Rightarrow> string option" where
  "fetch_html pf n current =
     (case fetch pf n current of
        FetchRejected msg \<Rightarrow> None
      | FetchResponse status body \<Rightarrow> if \<not> res_ok status then None else body)"

text \<open>Lines 191 to 219: the page was fetched; its record is filed and its links are queued.\<close>

definition scrape_page :: "platform \<Rightarrow> string set \<Rightarrow> crawl_state \<Rightarrow> string \<Rightarrow> string \<Rightarrow> crawl_state" where
  "scrape_page pf seedSet s current html =
     (let p = cheerio_load pf html;
          title = extractTitle p;
          lastUpdated = extractLastUpdated pf p;
          rec = \<lparr>Title = title, URL = current, LastUpdated = lastUpdated\<rparr>;
          s1 = (if current \<in> seedSet
                then s\<lparr>seedResults := seedResults s @ [rec]\<rparr>
                else s\<lparr>discoveredResults := discoveredResults s @ [rec]\<rparr>);
          extraUrls = extractSidebarUrls pf p current
      in foldl (enqueue_link pf) s1 extraUrls)"

text \<open>
  The body of the \<open>while\<close> loop, lines 169 to 223. It runs on a non-empty queue; on an
  empty one \<open>queue.shift()\<close> would give \<open>undefined\<close> and the iteration would end at once.
\<close>

definition loop_body :: "platform \<Rightarrow> string set \<Rightarrow> crawl_state \<Rightarrow> crawl_state" where
  "loop_body pf seedSet s =
     (case queue s of
        [] \<Rightarrow> s
      | current # rest \<Rightarrow>
          let s1 = s\<lparr>queue := rest\<rparr>
          in if current = [] \<or> current \<in> visited s1 then s1
             else let s2 = s1\<lparr>visited := insert current (visited s1),
                             pageCount := pageCount s1 + 1,
                             fetchLog := fetchLog s1 @ [current]\<rparr>
                  in (case fetch_html pf (pageCount s2) current of
                        None \<Rightarrow> s2
                      | Some html \<Rightarrow> scrape_page pf seedSet s2 current html))"

subsection \<open>The loop and scrapeAll\<close>

text \<open>
  The state after at most \<open>n\<close> iterations of \<open>while (queue.length > 0)\<close>. The loop may run
  forever (the site may never stop offering new links), so \<open>crawl_loop\<close> gives the final
  state only when \<open>n\<close> iterations empty the queue, and \<open>None\<close> otherwise.
\<close>

fun crawl_run :: "platform \<Rightarrow> string set \<Rightarrow> nat \<Rightarrow> crawl_state \<Rightarrow> crawl_state" where
  "crawl_run pf seedSet 0 s = s"
| "crawl_run pf seedSet (Suc n) s =
     (if queue s = [] then s else crawl_run pf seedSet n (loop_body pf seedSet s))"

definition crawl_loop :: "platform \<Rightarrow> string set \<Rightarrow> nat \<Rightarrow> crawl_state \<Rightarrow> crawl_state option" where
  "crawl_loop pf seedSet n s =
     (let s' = crawl_run pf seedSet n s in if queue s' = [] then Some s' else None)"

text \<open>
  \<open>scrapeAll()\<close>, lines 143 to 233, with \<open>n\<close> iterations allowed: \<open>Some (Inl msg)\<close> when it
  throws \<open>Error(msg)\<close>, \<open>Some (Inr s)\<close> when the loop ends in the state \<open>s\<close>, \<open>None\<close> when
  \<open>n\<close> iterations do not end the loop. \<open>scrapeAll\<close> is what the function returns, \<open>allRows\<close>.
\<close>

definition scrapeAll_state :: "platform \<Rightarrow> nat \<Rightarrow> (string + crawl_state) option" where
  "scrapeAll_state pf n =
     (case urls_txt pf of
        None \<Rightarrow> Some (Inl ''urls.txt not found. Place it next to server.js.'')
      | Some content \<Rightarrow>
          let seedUrls = seedUrls_of pf content
          in map_option Inr (crawl_loop pf (set seedUrls) n (initial_state seedUrls)))"

definition allRows :: "crawl_state \<Rightarrow> page_record list" where
  "allRows s = seedResults s @ discoveredResults s"

definition scrapeAll :: "platform \<Rightarrow> nat \<Rightarrow> (string + page_record list) option" where
  "scrapeAll pf n = map_option (map_sum id allRows) (scrapeAll_state pf n)"

subsection \<open>toCsv and the route\<close>

definition dquote :: char where
  "dquote = CHR 0x22"

definition CRLF :: string where
  "CRLF = [CHR 0x0D, CHR 0x0A]"

text \<open>
  Line 242. The three fields of a record are strings, so \<open>String(val ?? "")\<close> is \<open>val\<close>;
  \<open>replace(/"/g, '""')\<close> doubles every double quote.
\<close>

definition esc :: "string \<Rightarrow> string" where
  "esc val = [dquote] @ concat (map (\<lambda>c. if c = dquote then [dquote, dquote] else [c]) val) @ [dquote]"

definition csv_line :: "page_record \<Rightarrow> string" where
  "csv_line row = join '','' [esc (Title row), esc (URL row), esc (LastUpdated row)]"

definition toCsv :: "page_record list \<Rightarrow> string" where
  "toCsv rows = join CRLF (join '','' [''Title'', ''URL'', ''LastUpdated''] # map csv_line rows)"

text \<open>
  The handler of \<open>/scrape-all\<close>, lines 255 to 268: status and body of the response
  (\<open>res.send\<close> answers 200).
\<close>

definition scrape_all_route :: "platform \<Rightarrow> nat \<Rightarrow> (nat \<times> string) option" where
  "scrape_all_route pf n =
     map_option (\<lambda>r. case r of
                        Inl msg \<Rightarrow> (500, ''Scraping failed: '' @ msg)
                      | Inr rows \<Rightarrow> (200, toCsv rows))
       (scrapeAll pf n)"

section \<open>A standard CSV parser\<close>

text \<open>
  The reader of RFC 4180 that the output contract is measured against: records end with
  CR LF (the last one may go without), fields are separated by commas, a field may be
  enclosed in double quotes, and inside such a field two double quotes stand for one.
  \<open>None\<close> is a syntax error. The scanner keeps the field, the record and the records
  read so far.
\<close>

datatype csv_mode = FieldStart | InUnquoted | InQuoted | AfterQuote

fun csv_scan :: "csv_mode \<Rightarrow> string \<Rightarrow> string list \<Rightarrow> string list list \<Rightarrow> string \<Rightarrow> string list list option" where
  "csv_scan m fld row rows [] =
     (if m = InQuoted then None
      else if m = FieldStart \<and> row = [] then Some rows
      else Some (rows @ [row @ [fld]]))"
| "csv_scan m fld row rows (c # cs) =
     (if m = InQuoted then
        (if c = dquote then csv_scan AfterQuote fld row rows cs
         else csv_scan InQuoted (fld @ [c]) row rows cs)
      else if c = dquote then
        (if m = AfterQuote then csv_scan InQuoted (fld @ [dquote]) row rows cs
         else if m = FieldStart then csv_scan InQuoted [] row rows cs
         else None)
      else if c = CHR '','' then csv_scan FieldStart [] (row @ [fld]) rows cs
      else if c = CHR 0x0D \<and> take 1 cs = [CHR 0x0A] then
        csv_scan FieldStart [] [] (rows @ [row @ [fld]]) (drop 1 cs)
      else if m = AfterQuote then None
      else csv_scan InUnquoted (fld @ [c]) row rows cs)"

definition csv_parse :: "string \<Rightarrow> string list list option" where
  "csv_parse s = csv_scan FieldStart [] [] [] s"

section \<open>A reference platform\<close>

text \<open>
  Concrete platform functions, used to run the scraper on concrete inputs. They are
  instances for simple inputs, not the whole of the WHATWG and ECMAScript algorithms.

  \<open>simple_URL_parse\<close> reads \<open>scheme:\<close>, then \<open>//authority\<close> and a path, or a path alone
  (opaque unless it starts with a slash), then \<open>?query\<close> and \<open>#fragment\<close>. It agrees with
  \<open>new URL(raw)\<close> on inputs that the constructor takes over unchanged: a lower-case
  scheme and host, no credentials or port, no dot segments, backslashes, white space,
  control or non-ASCII characters, and for the special schemes (http, https, ws, wss,
  ftp) a non-empty host after exactly two slashes. It rejects every input without a
  scheme, which the constructor (given no base) rejects as well; it also rejects the
  special schemes without \<open>//\<close>, which the constructor accepts, so it is not used on
  such inputs.
\<close>

definition is_scheme_char :: "char \<Rightarrow> bool" where
  "is_scheme_char c = (is_alpha c \<or> is_digit c \<or> c \<in> set ''+-.'')"

definition special_scheme :: "string \<Rightarrow> bool" where
  "special_scheme sch = (sch \<in> set [''http'', ''https'', ''ws'', ''wss'', ''ftp''])"

definition not_path_end :: "char \<Rightarrow> bool" where
  "not_path_end c = (c \<noteq> CHR ''?'' \<and> c \<noteq> CHR ''#'')"

definition not_host_end :: "char \<Rightarrow> bool" where
  "not_host_end c = (c \<noteq> CHR ''/'' \<and> c \<noteq> CHR ''?'' \<and> c \<noteq> CHR ''#'')"

definition parse_query :: "string \<Rightarrow> string option" where
  "parse_query r = (if prefix ''?'' r then Some (takeWhile (\<lambda>c. c \<noteq> CHR ''#'') (drop 1 r)) else None)"

definition parse_fragment :: "string \<Rightarrow> string option" where
  "parse_fragment r =
     (let r' = dropWhile (\<lambda>c. c \<noteq> CHR ''#'') r in if r' = [] then None else Some (drop 1 r'))"

definition simple_URL_parse :: "string \<Rightarrow> url option" where
  "simple_URL_parse raw =
     (let sch = takeWhile (\<lambda>c. c \<noteq> CHR '':'') raw;
          rest0 = dropWhile (\<lambda>c. c \<noteq> CHR '':'') raw
      in if sch = [] \<or> \<not> is_alpha (hd sch) \<or> \<not> list_all is_scheme_char sch \<or> rest0 = [] then None
         else
           let scheme = toLowerCase sch; rest = drop 1 rest0
           in if prefix ''//'' rest then
                let r1 = drop 2 rest;
                    host = takeWhile not_host_end r1;
                    r2 = dropWhile not_host_end r1;
                    path = takeWhile not_path_end r2;
                    r3 = dropWhile not_path_end r2
                in if special_scheme scheme \<and> host = [] then None
                   else Some \<lparr>url_scheme = scheme, url_host = Some host,
                              url_path = (if path = [] \<and> special_scheme scheme then ''/'' else path),
                              url_opaque = False,
                              url_query = parse_query r3, url_fragment = parse_fragment r3\<rparr>
              else if special_scheme scheme then None
              else
                let path = takeWhile not_path_end rest;
                    r3 = dropWhile not_path_end rest
                in Some \<lparr>url_scheme = scheme, url_host = None, url_path = path,
                         url_opaque = (\<not> prefix ''/'' path),
                         url_query = parse_query r3, url_fragment = parse_fragment r3\<rparr>)"

text \<open>
  What \<open>simple_URL_parse\<close> returns, and what the serialiser writes after the path. A
  record is well formed when its scheme is a lower-case scheme, its host, path and query
  hold none of their end characters, a URL with a host has an empty path or one that
  starts with a slash (a special scheme has a host and a path), and a URL without a host
  has no special scheme, a path that does not start with two slashes, and is opaque
  exactly when its path does not start with a slash.
\<close>

definition url_tail :: "url \<Rightarrow> string" where
  "url_tail u =
     (case url_query u of None \<Rightarrow> [] | Some q \<Rightarrow> ''?'' @ q) @
     (case url_fragment u of None \<Rightarrow> [] | Some f \<Rightarrow> ''#'' @ f)"

definition simple_url_wf :: "url \<Rightarrow> bool" where
  "simple_url_wf u =
     (url_scheme u \<noteq> [] \<and> is_alpha (hd (url_scheme u)) \<and> list_all is_scheme_char (url_scheme u) \<and>
      toLowerCase (url_scheme u) = url_scheme u \<and>
      list_all not_path_end (url_path u) \<and>
      (case url_query u of None \<Rightarrow> True | Some q \<Rightarrow> CHR ''#'' \<notin> set q) \<and>
      (case url_host u of
         Some h \<Rightarrow>
           list_all not_host_end h \<and> \<not> url_opaque u \<and>
           (url_path u = [] \<or> hd (url_path u) = CHR ''/'') \<and>
           (if special_scheme (url_scheme u) then h \<noteq> [] \<and> url_path u \<noteq> [] else True)
       | None \<Rightarrow>
           \<not> special_scheme (url_scheme u) \<and> \<not> prefix ''//'' (url_path u) \<and>
           url_opaque u = (\<not> prefix ''/'' (url_path u))))"

text \<open>
  \<open>simple_URL_resolve\<close> covers an \<open>href\<close> that is an absolute URL by itself, and an
  \<open>href\<close> that starts with one slash, on a base with a host.
\<close>

definition simple_URL_resolve :: "string \<Rightarrow> string \<Rightarrow> string option" where
  "simple_URL_resolve href base =
     (case simple_URL_parse href of
        Some u \<Rightarrow> Some (URL_toString u)
      | None \<Rightarrow>
          if prefix ''/'' href \<and> \<not> prefix ''//'' href then
            (case simple_URL_parse base of
               None \<Rightarrow> None
             | Some b \<Rightarrow>
                 (case url_host b of
                    None \<Rightarrow> None
                  | Some h \<Rightarrow> map_option URL_toString (simple_URL_parse (url_scheme b @ ''://'' @ h @ href))))
          else None)"

text \<open>
  \<open>simple_Date_parse\<close> reads the format \<open>YYYY-MM-DDTHH:MM:SSZ\<close> of the ECMAScript date
  time strings: the days from 1970-01-01 to the date, in the proleptic Gregorian
  calendar, and the time of day, in milliseconds.
\<close>

definition days_from_civil :: "int \<Rightarrow> int \<Rightarrow> int \<Rightarrow> int" where
  "days_from_civil y0 m d =
     (let y = (if m \<le> 2 then y0 - 1 else y0);
          era = y div 400;
          yoe = y mod 400;
          doy = (153 * (if m > 2 then m - 3 else m + 9) + 2) div 5 + d - 1;
          doe = yoe * 365 + yoe div 4 - yoe div 100 + doy
      in era * 146097 + doe - 719468)"

definition read_nat :: "string \<Rightarrow> nat" where
  "read_nat ds = foldl (\<lambda>a c. 10 * a + (of_char c - 48)) 0 ds"

definition days_in_month :: "int \<Rightarrow> int \<Rightarrow> int" where
  "days_in_month y m =
     (if m = 2 then (if y mod 4 = 0 \<and> (y mod 100 \<noteq> 0 \<or> y mod 400 = 0) then 29 else 28)
      else if m \<in> set [4, 6, 9, 11] then 30 else 31)"

definition simple_Date_parse :: "string \<Rightarrow> int option" where
  "simple_Date_parse s =
     (let num = (\<lambda>i n. int (read_nat (take n (drop i s))));
          digits = (\<lambda>i n. list_all is_digit (take n (drop i s)));
          y = num 0 4; mo = num 5 2; d = num 8 2; h = num 11 2; mi = num 14 2; se = num 17 2
      in if length s = 20 \<and> digits 0 4 \<and> digits 5 2 \<and> digits 8 2 \<and> digits 11 2 \<and>
            digits 14 2 \<and> digits 17 2 \<and>
            s ! 4 = CHR ''-'' \<and> s ! 7 = CHR ''-'' \<and> s ! 10 = CHR ''T'' \<and>
            s ! 13 = CHR '':'' \<and> s ! 16 = CHR '':'' \<and> s ! 19 = CHR ''Z'' \<and>
            1 \<le> mo \<and> mo \<le> 12 \<and> 1 \<le> d \<and> d \<le> days_in_month y mo \<and>
            h \<le> 23 \<and> mi \<le> 59 \<and> se \<le> 59
         then Some (days_from_civil y mo d * 86400000 + h * 3600000 + mi * 60000 + se * 1000)
         else None)"

text \<open>
  A page with no elements, and the reference platform over a table of pages: the time
  zone is a constant offset \<open>tz\<close>, \<open>cheerio_load\<close> looks the body up in \<open>pages\<close>, the
  network answers by \<open>net\<close> and the seed file is \<open>file\<close>.
\<close>

definition empty_page :: page where
  "empty_page = \<lparr>select = (\<lambda>sel. [])\<rparr>"

definition simple_platform ::
    "int \<Rightarrow> (string \<Rightarrow> page) \<Rightarrow> (nat \<Rightarrow> string \<Rightarrow> fetch_result) \<Rightarrow> string option \<Rightarrow> platform" where
  "simple_platform tz pages net file =
     \<lparr>URL_parse = simple_URL_parse, URL_resolve = simple_URL_resolve,
      Date_parse = simple_Date_parse, tz_offset = (\<lambda>t. tz),
      cheerio_load = pages, fetch = net, urls_txt = file\<rparr>"

section \<open>Invariants of the loop\<close>

text \<open>
  What every iteration keeps: no URL was given to \<open>fetch\<close> twice, and every URL given to
  \<open>fetch\<close> is marked visited.
\<close>

definition fetch_inv :: "crawl_state \<Rightarrow> bool" where
  "fetch_inv s = (distinct (fetchLog s) \<and> set (fetchLog s) \<subseteq> visited s)"

text \<open>
  The frontier when the seeds are pairwise different: the queue holds no URL twice and no
  empty string, no visited URL is pending, and \<open>queued\<close> is exactly the visited and the
  pending URLs.
\<close>

definition frontier_inv :: "crawl_state \<Rightarrow> bool" where
  "frontier_inv s =
     (distinct (queue s) \<and> [] \<notin> set (queue s) \<and> visited s \<inter> set (queue s) = {} \<and>
      queued s = visited s \<union> set (queue s))"

text \<open>
  The frontier for every seed list: the seeds and the pending URLs are in \<open>queued\<close>, and
  a URL is pending (counting a visited URL once more) at most as often as the seed list
  holds it, at most once when the seed list does not hold it.
\<close>

definition queue_bound_inv :: "string list \<Rightarrow> crawl_state \<Rightarrow> bool" where
  "queue_bound_inv seedUrls s =
     (set seedUrls \<subseteq> queued s \<and> set (queue s) \<subseteq> queued s \<and>
      (\<forall>u. count_list (queue s) u + (if u \<in> visited s then 1 else 0)
           \<le> (if u \<in> set seedUrls then count_list seedUrls u else 1)))"

text \<open>
  The results in every state: the URLs of the seed records and of the discovered records
  are each a subsequence of the fetch order, the seed records are those of seed URLs and
  the discovered records those of other URLs.
\<close>

definition results_inv :: "string set \<Rightarrow> crawl_state \<Rightarrow> bool" where
  "results_inv seedSet s =
     (subseq (map URL (seedResults s)) (fetchLog s) \<and>
      set (map URL (seedResults s)) \<subseteq> seedSet \<and>
      subseq (map URL (discoveredResults s)) (fetchLog s) \<and>
      set (map URL (discoveredResults s)) \<inter> seedSet = {})"

text \<open>
  A fetch that fails, as the loop sees it (lines 181 to 189): the promise rejects, the
  status is not a success, or reading the body rejects.
\<close>

definition fetch_failed :: "fetch_result \<Rightarrow> bool" where
  "fetch_failed r =
     (case r of
        FetchRejected msg \<Rightarrow> True
      | FetchResponse status body \<Rightarrow> \<not> res_ok status \<or> body = None)"

section \<open>A small site\<close>

text \<open>
  A concrete site for running the scraper: the seed page \<open>/a\<close> has the heading Alpha, a
  \<open>local-time\<close> element for 2 January 2024 and three sidebar anchors (to \<open>/b\<close>, to another
  domain, and one labelled Supported countries); the page \<open>/b\<close> has the heading Beta and no
  links; every other URL answers 404.
\<close>

definition mk_element :: "string \<Rightarrow> (string \<times> string) list \<Rightarrow> element" where
  "mk_element txt attrs = \<lparr>el_text = txt, el_attr = map_of attrs, el_closest_text = []\<rparr>"

definition mk_page :: "(string \<times> element list) list \<Rightarrow> page" where
  "mk_page table = \<lparr>select = (\<lambda>sel. case map_of table sel of None \<Rightarrow> [] | Some els \<Rightarrow> els)\<rparr>"

definition demo_page_a :: page where
  "demo_page_a = mk_page
     [(''main h1'', [mk_element ''Alpha'' []]),
      (''h1'', [mk_element ''Alpha'' []]),
      (''local-time[datetime]'', [mk_element [] [(''datetime'', ''2024-01-02T00:00:00Z'')]]),
      (''aside a[href]'',
         [mk_element ''Beta'' [(''href'', ''/b'')],
          mk_element ''Elsewhere'' [(''href'', ''https://other.com/c'')],
          mk_element ''Supported countries'' [(''href'', ''/d'')]])]"

definition demo_page_b :: page where
  "demo_page_b = mk_page [(''main h1'', [mk_element ''Beta'' []]), (''h1'', [mk_element ''Beta'' []])]"

definition demo_pages :: "string \<Rightarrow> page" where
  "demo_pages html = (if html = ''A'' then demo_page_a else if html = ''B'' then demo_page_b else empty_page)"

definition demo_net :: "nat \<Rightarrow> string \<Rightarrow> fetch_result" where
  "demo_net n u =
     (if u = ''https://learn.microsoft.com/a'' then FetchResponse 200 (Some ''A'')
      else if u = ''https://learn.microsoft.com/b'' then FetchResponse 200 (Some ''B'')
      else FetchResponse 404 (Some []))"

definition demo_platform :: "string option \<Rightarrow> platform" where
  "demo_platform file = simple_platform 0 demo_pages demo_net file"

section \<open>The sidebar links before normalisation\<close>

text \<open>
  The conditions of lines 121 to 132 by themselves: the absolute URL that an anchor
  contributes, \<open>None\<close> when the callback returns before \<open>links.add\<close>. \<open>sidebar_anchors\<close>
  are the elements the three selectors match, in the order the callback sees them, and
  \<open>sidebar_targets\<close> are their contributions.
\<close>

definition anchor_target :: "platform \<Rightarrow> string \<Rightarrow> element \<Rightarrow> string option" where
  "anchor_target pf baseUrl a =
     (case el_attr a ''href'' of
        None \<Rightarrow> None
      | Some href \<Rightarrow>
          if href = [] \<or> prefix ''#'' href then None
          else (case URL_resolve pf href baseUrl of
                  None \<Rightarrow> None
                | Some absUrl \<Rightarrow>
                    if \<not> prefix ''https://learn.microsoft.com/'' absUrl then None
                    else if isSupportedCountryLink a then None
                    else Some absUrl))"

definition sidebar_anchors :: "page \<Rightarrow> element list" where
  "sidebar_anchors p = concat (map (select p) sidebar_selectors)"

definition sidebar_targets :: "platform \<Rightarrow> page \<Rightarrow> string \<Rightarrow> string list" where
  "sidebar_targets pf p baseUrl = List.map_filter (anchor_target pf baseUrl) (sidebar_anchors p)"

text \<open>
  The Link Discoverer as the specification words it: the resolved links of the anchors
  that are not discarded, deduplicated, and not normalised.
\<close>

definition discoverLinks_unnormalized :: "platform \<Rightarrow> page \<Rightarrow> string \<Rightarrow> string option list" where
  "discoverLinks_unnormalized pf p baseUrl = foldl Set_add [] (map Some (sidebar_targets pf p baseUrl))"

text \<open>
  A URL of the seed domain, as the platform parses it: scheme \<open>https\<close> and host
  \<open>learn.microsoft.com\<close>.
\<close>

definition on_seed_domain :: "url \<Rightarrow> bool" where
  "on_seed_domain u = (url_scheme u = ''https'' \<and> url_host u = Some ''learn.microsoft.com'')"


section \<open>More concrete pages\<close>

text \<open>
  A page whose only date is the \<open>datetime\<close> attribute of a \<open>local-time\<close> element without
  text, and a page with one sidebar anchor whose link ends with a slash.
\<close>

definition march15_page :: page where
  "march15_page = mk_page
     [(''local-time[datetime]'', [mk_element [] [(''datetime'', ''2024-03-15T00:00:00Z'')]])]"

definition slash_link_page :: page where
  "slash_link_page = mk_page
     [(''aside a[href]'', [mk_element ''Docs'' [(''href'', ''https://learn.microsoft.com/docs/'')]])]"

text \<open>Seed files: one seed; the same page twice, once with a trailing slash; no URL at all.\<close>

definition one_seed_file :: string where
  "one_seed_file = ''https://learn.microsoft.com/a'' @ [CHR 0x0A]"

definition twice_seed_file :: string where
  "twice_seed_file =
     ''https://learn.microsoft.com/a'' @ [CHR 0x0A] @ ''https://learn.microsoft.com/a/'' @ [CHR 0x0A]"

definition blank_seed_file :: string where
  "blank_seed_file = [CHR 0x0A] @ ''   '' @ [CHR 0x0D, CHR 0x0A] @ ''not a url'' @ [CHR 0x0A]"

section \<open>Properties of the crawl loop\<close>

lemma enqueue_link_keeps [simp]:
  "visited (enqueue_link pf s u) = visited s"
  "fetchLog (enqueue_link pf s u) = fetchLog s"
  "pageCount (enqueue_link pf s u) = pageCount s"
  "seedResults (enqueue_link pf s u) = seedResults s"
  "discoveredResults (enqueue_link pf s u) = discoveredResults s"
  by (simp_all add: enqueue_link_def split: option.splits)

lemma enqueue_all_keeps [simp]:
  "visited (foldl (enqueue_link pf) s us) = visited s"
  "fetchLog (foldl (enqueue_link pf) s us) = fetchLog s"
  "pageCount (foldl (enqueue_link pf) s us) = pageCount s"
  "seedResults (foldl (enqueue_link pf) s us) = seedResults s"
  "discoveredResults (foldl (enqueue_link pf) s us) = discoveredResults s"
  by (induction us arbitrary: s) simp_all

lemma scrape_page_keeps [simp]:
  "visited (scrape_page pf seedSet s current html) = visited s"
  "fetchLog (scrape_page pf seedSet s current html) = fetchLog s"
  "pageCount (scrape_page pf seedSet s current html) = pageCount s"
  by (simp_all add: scrape_page_def Let_def)

lemma loop_body_fetch_inv: "fetch_inv s \<Longrightarrow> fetch_inv (loop_body pf seedSet s)"
  by (auto simp: fetch_inv_def loop_body_def Let_def split: list.splits option.splits)

lemma crawl_run_fetch_inv: "fetch_inv s \<Longrightarrow> fetch_inv (crawl_run pf seedSet n s)"
  by (induction n arbitrary: s) (simp_all add: loop_body_fetch_inv)

lemma initial_fetch_inv: "fetch_inv (initial_state seedUrls)"
  by (simp add: fetch_inv_def initial_state_def)

lemma scrapeAll_state_run:
  "scrapeAll_state pf n = Some (Inr s) \<Longrightarrow>
   \<exists>content. urls_txt pf = Some content \<and>
     s = crawl_run pf (set (seedUrls_of pf content)) n (initial_state (seedUrls_of pf content)) \<and>
     queue s = []"
  by (auto simp: scrapeAll_state_def crawl_loop_def Let_def split: option.splits if_splits)

text \<open>
  Claim C1. Whatever the platform does, whatever the seeds are and however many
  iterations have run, the URLs given to \<open>fetch\<close> so far are pairwise different: the
  loop never fetches the same canonical URL twice. The same holds of the state in which
  \<open>scrapeAll\<close> ends.
\<close>

theorem crawl_never_fetches_twice: "distinct (fetchLog (crawl_run pf (set seedUrls) n (initial_state seedUrls))) \<and>
   (case scrapeAll_state pf n of Some (Inr s) \<Rightarrow> distinct (fetchLog s) | _ \<Rightarrow> True)"
proof
  show "distinct (fetchLog (crawl_run pf (set seedUrls) n (initial_state seedUrls)))"
    using crawl_run_fetch_inv [OF initial_fetch_inv] by (simp add: fetch_inv_def)
  show "case scrapeAll_state pf n of Some (Inr s) \<Rightarrow> distinct (fetchLog s) | _ \<Rightarrow> True"
  proof (cases "scrapeAll_state pf n")
    case None
    then show ?thesis by simp
  next
    case (Some r)
    show ?thesis
    proof (cases r)
      case (Inl e)
      with Some show ?thesis by simp
    next
      case (Inr s)
      with Some obtain content where
        "s = crawl_run pf (set (seedUrls_of pf content)) n (initial_state (seedUrls_of pf content))"
        using scrapeAll_state_run by blast
      then have "distinct (fetchLog s)"
        using crawl_run_fetch_inv [OF initial_fetch_inv] by (simp add: fetch_inv_def)
      with Some Inr show ?thesis by simp
    qed
  qed
qed

lemma enqueue_link_frontier_inv: "frontier_inv s \<Longrightarrow> frontier_inv (enqueue_link pf s u)"
  by (auto simp: frontier_inv_def enqueue_link_def split: option.splits)

lemma enqueue_all_frontier_inv: "frontier_inv s \<Longrightarrow> frontier_inv (foldl (enqueue_link pf) s us)"
  by (induction us arbitrary: s) (simp_all add: enqueue_link_frontier_inv)

lemma scrape_page_frontier_inv:
  "frontier_inv s \<Longrightarrow> frontier_inv (scrape_page pf seedSet s current html)"
  unfolding scrape_page_def Let_def
  by (rule enqueue_all_frontier_inv) (simp add: frontier_inv_def)

lemma loop_body_frontier_inv:
  assumes "frontier_inv s"
  shows "frontier_inv (loop_body pf seedSet s)"
proof (cases "queue s")
  case Nil
  with assms show ?thesis by (simp add: loop_body_def)
next
  case (Cons current rest)
  from assms Cons have c: "current \<noteq> []" "current \<notin> visited s" "current \<notin> set rest" "distinct rest"
    by (auto simp: frontier_inv_def)
  let ?s2 = "s\<lparr>queue := rest, visited := insert current (visited s),
                pageCount := pageCount s + 1, fetchLog := fetchLog s @ [current]\<rparr>"
  from assms Cons c have inv2: "frontier_inv ?s2"
    by (auto simp: frontier_inv_def)
  show ?thesis
  proof (cases "fetch_html pf (pageCount s + 1) current")
    case None
    with Cons c inv2 show ?thesis by (simp add: loop_body_def Let_def)
  next
    case (Some html)
    with Cons c scrape_page_frontier_inv [OF inv2] show ?thesis
      by (simp add: loop_body_def Let_def)
  qed
qed

lemma crawl_run_frontier_inv: "frontier_inv s \<Longrightarrow> frontier_inv (crawl_run pf seedSet n s)"
  by (induction n arbitrary: s) (simp_all add: loop_body_frontier_inv)

lemma truthy_nonempty: "[] \<notin> set (truthy xs)"
  by (induction xs rule: truthy.induct) simp_all

lemma initial_frontier_inv:
  "distinct seedUrls \<Longrightarrow> [] \<notin> set seedUrls \<Longrightarrow> frontier_inv (initial_state seedUrls)"
  by (simp add: frontier_inv_def initial_state_def)

lemma enqueue_link_nonempty: "[] \<notin> set (queue s) \<Longrightarrow> [] \<notin> set (queue (enqueue_link pf s u))"
  by (auto simp: enqueue_link_def split: option.splits)

lemma enqueue_all_nonempty:
  "[] \<notin> set (queue s) \<Longrightarrow> [] \<notin> set (queue (foldl (enqueue_link pf) s us))"
  by (induction us arbitrary: s) (simp_all add: enqueue_link_nonempty)

lemma loop_body_nonempty: "[] \<notin> set (queue s) \<Longrightarrow> [] \<notin> set (queue (loop_body pf seedSet s))"
  by (auto simp: loop_body_def Let_def scrape_page_def split: list.splits option.splits
      intro!: enqueue_all_nonempty)

lemma crawl_run_nonempty: "[] \<notin> set (queue s) \<Longrightarrow> [] \<notin> set (queue (crawl_run pf seedSet n s))"
  by (induction n arbitrary: s) (simp_all add: loop_body_nonempty)

lemma loop_body_dequeued_visited:
  "queue s = current # rest \<Longrightarrow> current \<noteq> [] \<Longrightarrow> current \<in> visited (loop_body pf seedSet s)"
  by (auto simp: loop_body_def Let_def split: option.splits)

lemma loop_body_visited_mono: "u \<in> visited s \<Longrightarrow> u \<in> visited (loop_body pf seedSet s)"
  by (auto simp: loop_body_def Let_def split: list.splits option.splits)

lemma crawl_run_visited_mono: "u \<in> visited s \<Longrightarrow> u \<in> visited (crawl_run pf seedSet n s)"
  by (induction n arbitrary: s) (simp_all add: loop_body_visited_mono)

lemma enqueue_link_count_visited:
  "u \<in> visited s \<Longrightarrow> count_list (queue (enqueue_link pf s x)) u = count_list (queue s) u"
  by (auto simp: enqueue_link_def split: option.splits)

lemma enqueue_all_count_visited:
  "u \<in> visited s \<Longrightarrow> count_list (queue (foldl (enqueue_link pf) s xs)) u = count_list (queue s) u"
  by (induction xs arbitrary: s) (simp_all add: enqueue_link_count_visited)

lemma scrape_page_count_visited:
  "u \<in> visited s \<Longrightarrow> count_list (queue (scrape_page pf seedSet s current html)) u = count_list (queue s) u"
  by (simp add: scrape_page_def Let_def enqueue_all_count_visited)

lemma loop_body_count_visited:
  "u \<in> visited s \<Longrightarrow> count_list (queue (loop_body pf seedSet s)) u \<le> count_list (queue s) u"
  by (auto simp: loop_body_def Let_def scrape_page_count_visited split: list.splits option.splits)

lemma crawl_run_count_visited:
  "u \<in> visited s \<Longrightarrow> count_list (queue (crawl_run pf seedSet n s)) u \<le> count_list (queue s) u"
proof (induction n arbitrary: s)
  case 0
  then show ?case by simp
next
  case (Suc n)
  show ?case
  proof (cases "queue s = []")
    case True
    then show ?thesis by simp
  next
    case False
    have "count_list (queue (crawl_run pf seedSet n (loop_body pf seedSet s))) u
          \<le> count_list (queue (loop_body pf seedSet s)) u"
      using Suc.IH [OF loop_body_visited_mono [OF Suc.prems]] .
    also have "\<dots> \<le> count_list (queue s) u"
      using loop_body_count_visited [OF Suc.prems] .
    finally show ?thesis using False by simp
  qed
qed

lemma loop_body_fetch_count:
  "u \<in> visited s \<Longrightarrow> count_list (fetchLog (loop_body pf seedSet s)) u = count_list (fetchLog s) u"
  by (auto simp: loop_body_def Let_def split: list.splits option.splits)

lemma crawl_run_fetch_count:
  "u \<in> visited s \<Longrightarrow> count_list (fetchLog (crawl_run pf seedSet n s)) u = count_list (fetchLog s) u"
  by (induction n arbitrary: s) (simp_all add: loop_body_fetch_count loop_body_visited_mono)

section \<open>Properties of the frontier\<close>

lemma seedUrls_nonempty: "[] \<notin> set (seedUrls_of pf content)"
  by (simp add: seedUrls_of_def truthy_nonempty)

lemma initial_queue [simp]: "queue (initial_state seedUrls) = seedUrls"
  by (simp add: initial_state_def)

lemma count_list_snoc: "count_list (xs @ [x]) u = count_list xs u + (if x = u then 1 else 0)"
  by (induction xs) simp_all

lemma enqueue_link_queue_bound:
  assumes "queue_bound_inv seedUrls s"
  shows "queue_bound_inv seedUrls (enqueue_link pf s x)"
proof (cases "normalizeUrl pf (case x of None \<Rightarrow> ''null'' | Some r \<Rightarrow> r)")
  case None
  with assms show ?thesis by (simp add: enqueue_link_def)
next
  case (Some norm)
  show ?thesis
  proof (cases "norm = [] \<or> norm \<in> visited s \<or> norm \<in> queued s")
    case True
    with Some assms show ?thesis by (auto simp: enqueue_link_def)
  next
    case False
    with assms have n: "norm \<notin> set (queue s)" "norm \<notin> set seedUrls" "norm \<notin> visited s"
      by (auto simp: queue_bound_inv_def)
    then have c: "count_list (queue s) norm = 0" by (simp add: count_notin)
    from Some False have e: "enqueue_link pf s x =
        s\<lparr>queued := insert norm (queued s), queue := queue s @ [norm]\<rparr>"
      by (simp add: enqueue_link_def)
    show ?thesis
      unfolding e queue_bound_inv_def
    proof (intro conjI allI)
      fix u
      let ?s' = "s\<lparr>queued := insert norm (queued s), queue := queue s @ [norm]\<rparr>"
      from assms have "count_list (queue s) u + (if u \<in> visited s then 1 else 0)
           \<le> (if u \<in> set seedUrls then count_list seedUrls u else 1)"
        by (simp add: queue_bound_inv_def)
      with n c show "count_list (queue ?s') u + (if u \<in> visited ?s' then 1 else 0)
           \<le> (if u \<in> set seedUrls then count_list seedUrls u else 1)"
        by (auto simp: count_list_snoc split: if_splits)
    qed (use assms in \<open>auto simp: queue_bound_inv_def\<close>)
  qed
qed

lemma enqueue_all_queue_bound:
  "queue_bound_inv seedUrls s \<Longrightarrow> queue_bound_inv seedUrls (foldl (enqueue_link pf) s us)"
  by (induction us arbitrary: s) (simp_all add: enqueue_link_queue_bound)

lemma scrape_page_queue_bound:
  "queue_bound_inv seedUrls s \<Longrightarrow> queue_bound_inv seedUrls (scrape_page pf seedSet s current html)"
  unfolding scrape_page_def Let_def
  by (rule enqueue_all_queue_bound) (simp add: queue_bound_inv_def)

lemma loop_body_queue_bound:
  assumes "queue_bound_inv seedUrls s"
  shows "queue_bound_inv seedUrls (loop_body pf seedSet s)"
proof (cases "queue s")
  case Nil
  with assms show ?thesis by (simp add: loop_body_def)
next
  case (Cons current rest)
  show ?thesis
  proof (cases "current = [] \<or> current \<in> visited s")
    case True
    have "queue_bound_inv seedUrls (s\<lparr>queue := rest\<rparr>)"
      unfolding queue_bound_inv_def
    proof (intro conjI allI)
      fix u
      from assms have "count_list (queue s) u + (if u \<in> visited s then 1 else 0)
           \<le> (if u \<in> set seedUrls then count_list seedUrls u else 1)"
        by (simp add: queue_bound_inv_def)
      with Cons show "count_list (queue (s\<lparr>queue := rest\<rparr>)) u +
           (if u \<in> visited (s\<lparr>queue := rest\<rparr>) then 1 else 0)
           \<le> (if u \<in> set seedUrls then count_list seedUrls u else 1)"
        by (auto split: if_splits)
    qed (use assms Cons in \<open>auto simp: queue_bound_inv_def\<close>)
    with Cons True show ?thesis by (auto simp: loop_body_def Let_def)
  next
    case False
    let ?s2 = "s\<lparr>queue := rest, visited := insert current (visited s),
                  pageCount := pageCount s + 1, fetchLog := fetchLog s @ [current]\<rparr>"
    have inv2: "queue_bound_inv seedUrls ?s2"
      unfolding queue_bound_inv_def
    proof (intro conjI allI)
      fix u
      from assms have "count_list (queue s) u + (if u \<in> visited s then 1 else 0)
           \<le> (if u \<in> set seedUrls then count_list seedUrls u else 1)"
        by (simp add: queue_bound_inv_def)
      with Cons False show "count_list (queue ?s2) u + (if u \<in> visited ?s2 then 1 else 0)
           \<le> (if u \<in> set seedUrls then count_list seedUrls u else 1)"
        by (auto split: if_splits)
    qed (use assms Cons in \<open>auto simp: queue_bound_inv_def\<close>)
    show ?thesis
    proof (cases "fetch_html pf (pageCount s + 1) current")
      case None
      with Cons False inv2 show ?thesis by (simp add: loop_body_def Let_def)
    next
      case (Some html)
      with Cons False scrape_page_queue_bound [OF inv2] show ?thesis
        by (simp add: loop_body_def Let_def)
    qed
  qed
qed

lemma crawl_run_queue_bound:
  "queue_bound_inv seedUrls s \<Longrightarrow> queue_bound_inv seedUrls (crawl_run pf seedSet n s)"
  by (induction n arbitrary: s) (simp_all add: loop_body_queue_bound)

lemma initial_queue_bound: "queue_bound_inv seedUrls (initial_state seedUrls)"
  by (auto simp: queue_bound_inv_def initial_state_def count_notin)

lemma loop_body_skips_visited:
  "queue s = current # rest \<Longrightarrow> current \<in> visited s \<Longrightarrow>
   loop_body pf seedSet s = s\<lparr>queue := rest\<rparr>"
  by (simp add: loop_body_def Let_def)

text \<open>
  Claim C4, as amended. In every state the loop reaches, for every seed list, a URL is in
  the queue at most as often as the seed list holds it, and at most once when the seed
  list does not hold it; a URL that is visited is in the queue once less. The queue
  starts as the seed list, so a URL that the seed list holds twice is queued twice from
  the start, and an iteration that takes a visited URL from the queue only removes the
  entry. When the seed URLs are pairwise different, the queue holds no URL twice, no
  pending URL is visited, and \<open>queued\<close> is exactly the visited and the pending URLs.
  The URL that an iteration takes from the queue is visited after it, and the number of
  queue entries of a visited URL never grows again: nothing enqueues it.
\<close>

theorem frontier_queue_without_duplicates:
  fixes pf content n
  defines "seedUrls \<equiv> seedUrls_of pf content"
  defines "s \<equiv> crawl_run pf (set seedUrls) n (initial_state seedUrls)"
  shows "(distinct seedUrls \<longrightarrow>
            distinct (queue s) \<and> visited s \<inter> set (queue s) = {} \<and>
            queued s = visited s \<union> set (queue s)) \<and>
         (\<forall>current rest. queue s = current # rest \<longrightarrow>
            current \<in> visited (loop_body pf (set seedUrls) s)) \<and>
         (\<forall>u m. u \<in> visited s \<longrightarrow>
            count_list (queue (crawl_run pf (set seedUrls) m s)) u \<le> count_list (queue s) u) \<and>
         (\<forall>u. count_list (queue s) u + (if u \<in> visited s then 1 else 0)
               \<le> (if u \<in> set seedUrls then count_list seedUrls u else 1)) \<and>
         queue (crawl_run pf (set seedUrls) 0 (initial_state seedUrls)) = seedUrls \<and>
         (\<forall>current rest. queue s = current # rest \<and> current \<in> visited s \<longrightarrow>
            loop_body pf (set seedUrls) s = s\<lparr>queue := rest\<rparr>)"
proof (intro conjI impI allI)
  assume d: "distinct seedUrls"
  have ne: "[] \<notin> set seedUrls"
    unfolding seedUrls_def by (rule seedUrls_nonempty)
  have "frontier_inv s"
    unfolding s_def by (rule crawl_run_frontier_inv [OF initial_frontier_inv [OF d ne]])
  then show "distinct (queue s)" "visited s \<inter> set (queue s) = {}"
    "queued s = visited s \<union> set (queue s)"
    by (simp_all add: frontier_inv_def)
next
  fix current rest
  assume q: "queue s = current # rest"
  have "[] \<notin> set (queue s)"
    unfolding s_def seedUrls_def
    by (rule crawl_run_nonempty) (simp add: seedUrls_nonempty)
  with q have "current \<noteq> []" by auto
  with q show "current \<in> visited (loop_body pf (set seedUrls) s)"
    by (rule loop_body_dequeued_visited)
next
  fix u m
  assume "u \<in> visited s"
  then show "count_list (queue (crawl_run pf (set seedUrls) m s)) u \<le> count_list (queue s) u"
    by (rule crawl_run_count_visited)
next
  fix u
  have "queue_bound_inv seedUrls s"
    unfolding s_def by (rule crawl_run_queue_bound [OF initial_queue_bound])
  then show "count_list (queue s) u + (if u \<in> visited s then 1 else 0)
               \<le> (if u \<in> set seedUrls then count_list seedUrls u else 1)"
    by (simp add: queue_bound_inv_def)
next
  show "queue (crawl_run pf (set seedUrls) 0 (initial_state seedUrls)) = seedUrls"
    by simp
next
  fix current rest
  assume "queue s = current # rest \<and> current \<in> visited s"
  then show "loop_body pf (set seedUrls) s = s\<lparr>queue := rest\<rparr>"
    by (simp add: loop_body_skips_visited)
qed

lemma fetch_failed_html: "fetch_failed (fetch pf n u) \<Longrightarrow> fetch_html pf n u = None"
  by (auto simp: fetch_failed_def fetch_html_def split: fetch_result.splits)

lemma enqueue_link_rows_visited:
  "allRows (enqueue_link pf s x) = allRows s"
  by (simp add: allRows_def)

lemma loop_body_rows_visited:
  "u \<in> visited s \<Longrightarrow>
   filter (\<lambda>r. URL r = u) (allRows (loop_body pf seedSet s)) = filter (\<lambda>r. URL r = u) (allRows s)"
  by (auto simp: loop_body_def Let_def scrape_page_def allRows_def split: list.splits option.splits)

lemma crawl_run_rows_visited:
  "u \<in> visited s \<Longrightarrow>
   filter (\<lambda>r. URL r = u) (allRows (crawl_run pf seedSet n s)) = filter (\<lambda>r. URL r = u) (allRows s)"
  by (induction n arbitrary: s) (simp_all add: loop_body_rows_visited loop_body_visited_mono)

text \<open>
  Claim C8. An iteration that takes \<open>current\<close> from the queue and whose fetch fails changes
  the state in four fields only: \<open>current\<close> leaves the queue and is visited, the counter
  and the fetch trace grow by one; the result lists, the rest of the queue and \<open>queued\<close>
  stay. The loop goes on from that state, and however long it runs, \<open>current\<close> stays
  visited, is not fetched again, and gets no record.
\<close>

theorem fetch_failure_skips_url:
  fixes s current rest pf seedSet n
  defines "s' \<equiv> s\<lparr>queue := rest, visited := insert current (visited s),
                    pageCount := pageCount s + 1, fetchLog := fetchLog s @ [current]\<rparr>"
  assumes q: "queue s = current # rest"
    and c: "current \<noteq> []" "current \<notin> visited s"
    and f: "fetch_failed (fetch pf (pageCount s + 1) current)"
  shows "loop_body pf seedSet s = s' \<and>
         crawl_run pf seedSet (Suc n) s = crawl_run pf seedSet n s' \<and>
         current \<in> visited (crawl_run pf seedSet n s') \<and>
         count_list (fetchLog (crawl_run pf seedSet n s')) current = count_list (fetchLog s') current \<and>
         filter (\<lambda>r. URL r = current) (allRows (crawl_run pf seedSet n s')) =
           filter (\<lambda>r. URL r = current) (allRows s)"
proof -
  have body: "loop_body pf seedSet s = s'"
    using q c fetch_failed_html [OF f] by (simp add: loop_body_def Let_def s'_def)
  have v: "current \<in> visited s'" by (simp add: s'_def)
  have rows: "allRows s' = allRows s" by (simp add: s'_def allRows_def)
  from body q have "crawl_run pf seedSet (Suc n) s = crawl_run pf seedSet n s'" by simp
  moreover note body crawl_run_visited_mono [OF v] crawl_run_fetch_count [OF v]
  moreover have "filter (\<lambda>r. URL r = current) (allRows (crawl_run pf seedSet n s')) =
           filter (\<lambda>r. URL r = current) (allRows s)"
    using crawl_run_rows_visited [OF v] rows by simp
  ultimately show ?thesis by blast
qed


lemma enqueue_all_results_inv:
  "results_inv seedSet (foldl (enqueue_link pf) s us) = results_inv seedSet s"
  by (simp add: results_inv_def)

lemma loop_body_results_inv:
  "results_inv seedSet s \<Longrightarrow> results_inv seedSet (loop_body pf seedSet s)"
  by (auto simp: loop_body_def Let_def scrape_page_def enqueue_all_results_inv
      split: list.splits option.splits)
     (auto simp: results_inv_def list_emb_prefix list_emb_append_mono)

lemma crawl_run_results_inv:
  "results_inv seedSet s \<Longrightarrow> results_inv seedSet (crawl_run pf seedSet n s)"
  by (induction n arbitrary: s) (simp_all add: loop_body_results_inv)

lemma initial_results_inv: "results_inv seedSet (initial_state seedUrls)"
  by (simp add: results_inv_def initial_state_def)

lemma seeds_all_fail:
  "\<forall>l\<in>set ls. f l = None \<Longrightarrow> truthy (map f ls) = []"
  by (induction ls) simp_all

text \<open>
  Claim C10. A seed file that exists and gives no seed URL is no error: for every number
  of iterations allowed, \<open>scrapeAll\<close> ends in the initial state, with no fetch, and returns
  no rows, and the route answers 200 with the header line alone. A file all of whose
  lines fail to normalise gives no seed URL. A missing file makes \<open>scrapeAll\<close> throw, and
  nothing else does.
\<close>

theorem empty_seed_file_is_not_fatal:
  "(urls_txt pf = Some content \<and> seedUrls_of pf content = [] \<longrightarrow>
      scrapeAll_state pf n = Some (Inr (initial_state [])) \<and>
      fetchLog (initial_state []) = [] \<and>
      scrapeAll pf n = Some (Inr []) \<and>
      scrape_all_route pf n = Some (200, ''Title,URL,LastUpdated'')) \<and>
   (urls_txt pf = Some content \<and> (\<forall>l\<in>set (rawList_of content). normalizeUrl pf l = None) \<longrightarrow>
      seedUrls_of pf content = []) \<and>
   (urls_txt pf = None \<longrightarrow>
      scrapeAll pf n = Some (Inl ''urls.txt not found. Place it next to server.js.'')) \<and>
   (\<forall>msg. scrapeAll pf n = Some (Inl msg) \<longrightarrow> urls_txt pf = None)"
proof (intro conjI impI allI)
  assume a: "urls_txt pf = Some content \<and> seedUrls_of pf content = []"
  have run: "crawl_run pf {} n (initial_state []) = initial_state []"
    by (cases n) simp_all
  from a run show st: "scrapeAll_state pf n = Some (Inr (initial_state []))"
    by (simp add: scrapeAll_state_def crawl_loop_def Let_def)
  show "fetchLog (initial_state []) = []" by (simp add: initial_state_def)
  from st show r: "scrapeAll pf n = Some (Inr [])"
    by (simp add: scrapeAll_def allRows_def initial_state_def)
  from r show "scrape_all_route pf n = Some (200, ''Title,URL,LastUpdated'')"
    by (simp add: scrape_all_route_def toCsv_def)
next
  assume "urls_txt pf = Some content \<and> (\<forall>l\<in>set (rawList_of content). normalizeUrl pf l = None)"
  then show "seedUrls_of pf content = []"
    by (simp add: seedUrls_of_def seeds_all_fail)
next
  assume "urls_txt pf = None"
  then show "scrapeAll pf n = Some (Inl ''urls.txt not found. Place it next to server.js.'')"
    by (simp add: scrapeAll_def scrapeAll_state_def)
next
  fix msg
  assume "scrapeAll pf n = Some (Inl msg)"
  then show "urls_txt pf = None"
    by (cases "urls_txt pf") (auto simp: scrapeAll_def scrapeAll_state_def Let_def split: option.splits)
qed

section \<open>Properties of the output\<close>

lemma join_cons: "join sep (x # xs) = x @ concat (map (\<lambda>y. sep @ y) xs)"
  by (induction xs arbitrary: x) simp_all

lemma scan_quoted_body:
  "csv_scan InQuoted fld row rows
     (concat (map (\<lambda>c. if c = dquote then [dquote, dquote] else [c]) v) @ dquote # rest) =
   csv_scan AfterQuote (fld @ v) row rows rest"
  by (induction v arbitrary: fld) simp_all

lemma scan_esc:
  "csv_scan FieldStart [] row rows (esc v @ rest) = csv_scan AfterQuote v row rows rest"
  using scan_quoted_body [of "[]" row rows v rest] by (simp add: esc_def)

lemma scan_comma_after_quote:
  "csv_scan AfterQuote fld row rows (CHR '','' # rest) = csv_scan FieldStart [] (row @ [fld]) rows rest"
  by (simp add: dquote_def)

lemma scan_csv_line:
  "csv_scan FieldStart [] [] rows (csv_line r @ rest) =
   csv_scan AfterQuote (LastUpdated r) [Title r, URL r] rows rest"
  by (simp add: csv_line_def scan_esc scan_comma_after_quote del: csv_scan.simps)

lemma scan_crlf:
  "m = AfterQuote \<or> m = InUnquoted \<Longrightarrow>
   csv_scan m fld row rows (CRLF @ rest) = csv_scan FieldStart [] [] (rows @ [row @ [fld]]) rest"
  by (auto simp: CRLF_def dquote_def)

lemma scan_lines:
  "m = AfterQuote \<or> m = InUnquoted \<Longrightarrow>
   csv_scan m fld row rows (concat (map (\<lambda>y. CRLF @ y) (map csv_line rs))) =
   Some (rows @ [row @ [fld]] @ map (\<lambda>r. [Title r, URL r, LastUpdated r]) rs)"
proof (induction rs arbitrary: m fld row rows)
  case Nil
  then show ?case by auto
next
  case (Cons r rs)
  have "csv_scan m fld row rows (concat (map (\<lambda>y. CRLF @ y) (map csv_line (r # rs)))) =
        csv_scan AfterQuote (LastUpdated r) [Title r, URL r] (rows @ [row @ [fld]])
          (concat (map (\<lambda>y. CRLF @ y) (map csv_line rs)))"
    using scan_crlf [OF Cons.prems] by (simp add: scan_csv_line)
  then show ?case using Cons.IH [of AfterQuote] by simp
qed

lemma scan_header:
  "csv_scan FieldStart [] [] [] (''Title,URL,LastUpdated'' @ rest) =
   csv_scan InUnquoted ''LastUpdated'' [''Title'', ''URL''] [] rest"
  by (simp add: dquote_def)

lemma csv_roundtrip:
  "csv_parse (toCsv rows) =
   Some ([''Title'', ''URL'', ''LastUpdated''] # map (\<lambda>r. [Title r, URL r, LastUpdated r]) rows)"
proof -
  have "toCsv rows = ''Title,URL,LastUpdated'' @ concat (map (\<lambda>y. CRLF @ y) (map csv_line rows))"
    by (simp add: toCsv_def join_cons)
  then show ?thesis
    using scan_lines [of InUnquoted "''LastUpdated''" "[''Title'', ''URL'']" "[]" rows]
    by (simp add: csv_parse_def scan_header del: append.simps)
qed

text \<open>
  Claim C7. \<open>toCsv\<close> writes the header line and one line per record, the three fields in
  the order title, URL, date, each escaped by \<open>esc\<close>, the lines joined by CR LF; a standard
  CSV parser reads the output back as the header and the records' fields, whatever
  characters the fields hold. In every state of the loop the seed records come first in
  \<open>allRows\<close>, the URLs of each group follow the order of fetching, the seed records are
  those of seed URLs and the discovered records those of other URLs; \<open>scrapeAll\<close> returns
  \<open>allRows\<close> of the final state.
\<close>

theorem csv_output_contract:
  "toCsv rows =
     join CRLF (''Title,URL,LastUpdated'' #
                map (\<lambda>r. esc (Title r) @ '','' @ esc (URL r) @ '','' @ esc (LastUpdated r)) rows) \<and>
   csv_parse (toCsv rows) =
     Some ([''Title'', ''URL'', ''LastUpdated''] # map (\<lambda>r. [Title r, URL r, LastUpdated r]) rows) \<and>
   results_inv (set seedUrls) (crawl_run pf (set seedUrls) n (initial_state seedUrls)) \<and>
   allRows (crawl_run pf (set seedUrls) n (initial_state seedUrls)) =
     seedResults (crawl_run pf (set seedUrls) n (initial_state seedUrls)) @
     discoveredResults (crawl_run pf (set seedUrls) n (initial_state seedUrls)) \<and>
   (case scrapeAll_state pf n of
      None \<Rightarrow> scrapeAll pf n = None
    | Some (Inl e) \<Rightarrow> scrapeAll pf n = Some (Inl e)
    | Some (Inr s) \<Rightarrow> scrapeAll pf n = Some (Inr (seedResults s @ discoveredResults s)))"
proof (intro conjI)
  show "toCsv rows =
     join CRLF (''Title,URL,LastUpdated'' #
                map (\<lambda>r. esc (Title r) @ '','' @ esc (URL r) @ '','' @ esc (LastUpdated r)) rows)"
  proof -
    have "csv_line = (\<lambda>r. esc (Title r) @ '','' @ esc (URL r) @ '','' @ esc (LastUpdated r))"
      by (rule ext) (simp add: csv_line_def)
    then show ?thesis by (simp add: toCsv_def)
  qed
  show "csv_parse (toCsv rows) =
     Some ([''Title'', ''URL'', ''LastUpdated''] # map (\<lambda>r. [Title r, URL r, LastUpdated r]) rows)"
    by (rule csv_roundtrip)
  show "results_inv (set seedUrls) (crawl_run pf (set seedUrls) n (initial_state seedUrls))"
    by (rule crawl_run_results_inv [OF initial_results_inv])
  show "allRows (crawl_run pf (set seedUrls) n (initial_state seedUrls)) =
     seedResults (crawl_run pf (set seedUrls) n (initial_state seedUrls)) @
     discoveredResults (crawl_run pf (set seedUrls) n (initial_state seedUrls))"
    by (simp add: allRows_def)
  show "case scrapeAll_state pf n of
      None \<Rightarrow> scrapeAll pf n = None
    | Some (Inl e) \<Rightarrow> scrapeAll pf n = Some (Inl e)
    | Some (Inr s) \<Rightarrow> scrapeAll pf n = Some (Inr (seedResults s @ discoveredResults s))"
    by (simp add: scrapeAll_def allRows_def split: option.splits sum.splits)
qed

section \<open>Properties of normalizeUrl\<close>

lemma suffix_single: "suffix [c] p \<longleftrightarrow> p \<noteq> [] \<and> last p = c"
  by (cases p rule: rev_cases) auto

lemma suffix_double_butlast:
  "suffix [c] p \<Longrightarrow> suffix [c] (butlast p) \<Longrightarrow> suffix [c, c] p"
  by (cases p rule: rev_cases) (auto simp: suffix_def)

lemma clear_hash_idem: "URL_clear_hash (URL_clear_hash u) = URL_clear_hash u"
  by (simp add: URL_clear_hash_def Let_def dropWhile_idem)

lemma clear_hash_opaque [simp]: "url_opaque (URL_clear_hash u) = url_opaque u"
  by (simp add: URL_clear_hash_def Let_def)

lemma normalize_opaque: "url_opaque u \<Longrightarrow> normalize_url_object u = URL_clear_hash u"
  by (simp add: normalize_url_object_def Let_def URL_set_pathname_def)

lemma normalize_hierarchical:
  "\<not> url_opaque u \<Longrightarrow>
   normalize_url_object u =
     u\<lparr>url_path := (if url_path u \<noteq> ''/'' \<and> suffix ''/'' (url_path u)
                     then butlast (url_path u) else url_path u),
       url_fragment := None\<rparr>"
  by (simp add: normalize_url_object_def Let_def URL_set_pathname_def URL_clear_hash_def)

lemma normalize_idem:
  assumes "url_opaque u \<or> \<not> suffix ''//'' (url_path u) \<or> url_path u = ''//''"
  shows "normalize_url_object (normalize_url_object u) = normalize_url_object u"
proof (cases "url_opaque u")
  case True
  then show ?thesis by (simp add: normalize_opaque clear_hash_idem)
next
  case False
  show ?thesis
  proof (cases "url_path u \<noteq> ''/'' \<and> suffix ''/'' (url_path u)")
    case strip: True
    have "butlast (url_path u) = ''/'' \<or> \<not> suffix ''/'' (butlast (url_path u))"
    proof (cases "url_path u = ''//''")
      case True
      then show ?thesis by simp
    next
      case False
      with assms \<open>\<not> url_opaque u\<close> have "\<not> suffix ''//'' (url_path u)" by simp
      with strip suffix_double_butlast [of "CHR ''/''" "url_path u"] show ?thesis by auto
    qed
    with False strip show ?thesis by (auto simp: normalize_hierarchical)
  next
    case False
    with \<open>\<not> url_opaque u\<close> show ?thesis by (auto simp: normalize_hierarchical)
  qed
qed

text \<open>
  Claim C2, as amended. Let the platform parse \<open>raw\<close> to \<open>u\<close> and parse the serialisation
  of the normalised \<open>u\<close> back to the normalised \<open>u\<close>. When the path of \<open>u\<close> is opaque, does
  not end with two slashes, or is \<open>//\<close>, normalising the result of \<open>normalizeUrl\<close> again
  gives the same result.
\<close>

theorem normalizeUrl_idempotent_without_double_slash:
  assumes p: "URL_parse pf raw = Some u"
    and rt: "URL_parse pf (URL_toString (normalize_url_object u)) = Some (normalize_url_object u)"
    and path: "url_opaque u \<or> \<not> suffix ''//'' (url_path u) \<or> url_path u = ''//''"
  shows "\<exists>s. normalizeUrl pf raw = Some s \<and> normalizeUrl pf s = normalizeUrl pf raw"
  using p rt normalize_idem [OF path] by (simp add: normalizeUrl_def)

lemma strip_spaces_keeps_slash:
  "suffix ''/'' p \<Longrightarrow> rev (dropWhile (\<lambda>c. c = CHR 0x20) (rev p)) = p"
  by (cases p rule: rev_cases) (auto simp: suffix_single)

lemma normalize_keeps_fields:
  "url_fragment (normalize_url_object u) = None"
  "url_query (normalize_url_object u) = url_query u"
  "url_scheme (normalize_url_object u) = url_scheme u"
  "url_host (normalize_url_object u) = url_host u"
  "url_opaque (normalize_url_object u) = url_opaque u"
  by (simp_all add: normalize_url_object_def Let_def URL_set_pathname_def URL_clear_hash_def)

text \<open>
  Claim C3, as amended. On every URL that the platform parses, \<open>normalizeUrl\<close> returns the
  serialisation of a URL with the same scheme, host and query and with no fragment:
  scheme, host, path and query are written, and no fragment. When the path is not opaque,
  that path is the parsed path without its last slash, unless the path is \<open>/\<close>. When the
  path is opaque, it is the parsed path (without its trailing spaces when there is no
  query), so a slash at its end stays. On an input the constructor rejects,
  \<open>normalizeUrl\<close> returns \<open>null\<close>. With the two URLs of the claim parsed as the URL
  standard parses them, \<open>https://x/a/\<close> becomes \<open>https://x/a\<close> and \<open>https://x/\<close> stays.
\<close>

theorem normalizeUrl_effect:
  "(\<forall>u. URL_parse pf raw = Some u \<longrightarrow>
      (\<exists>v. normalizeUrl pf raw = Some (URL_toString v) \<and>
           url_fragment v = None \<and> url_query v = url_query u \<and>
           url_scheme v = url_scheme u \<and> url_host v = url_host u \<and>
           url_opaque v = url_opaque u \<and>
           URL_toString v =
             url_scheme u @ '':'' @
             (case url_host u of
                Some h \<Rightarrow> ''//'' @ h
              | None \<Rightarrow> if \<not> url_opaque u \<and> prefix ''//'' (url_path v) then ''/.'' else []) @
             url_path v @ (case url_query u of None \<Rightarrow> [] | Some q \<Rightarrow> ''?'' @ q))) \<and>
   (\<forall>u. URL_parse pf raw = Some u \<and> \<not> url_opaque u \<longrightarrow>
      (let path' = (if url_path u \<noteq> ''/'' \<and> suffix ''/'' (url_path u)
                    then butlast (url_path u) else url_path u)
       in normalizeUrl pf raw = Some (URL_toString (u\<lparr>url_path := path', url_fragment := None\<rparr>)) \<and>
          normalizeUrl pf raw =
            Some (url_scheme u @ '':'' @
                  (case url_host u of
                     Some h \<Rightarrow> ''//'' @ h
                   | None \<Rightarrow> if prefix ''//'' path' then ''/.'' else []) @
                  path' @ (case url_query u of None \<Rightarrow> [] | Some q \<Rightarrow> ''?'' @ q)))) \<and>
   (\<forall>u. URL_parse pf raw = Some u \<and> url_opaque u \<longrightarrow>
      (let path' = (if url_query u = None
                    then rev (dropWhile (\<lambda>c. c = CHR 0x20) (rev (url_path u)))
                    else url_path u)
       in normalizeUrl pf raw = Some (URL_toString (u\<lparr>url_path := path', url_fragment := None\<rparr>)) \<and>
          (suffix ''/'' (url_path u) \<longrightarrow> path' = url_path u))) \<and>
   (URL_parse pf raw = None \<longrightarrow> normalizeUrl pf raw = None) \<and>
   (URL_parse pf ''https://x/a/'' =
      Some \<lparr>url_scheme = ''https'', url_host = Some ''x'', url_path = ''/a/'', url_opaque = False,
            url_query = None, url_fragment = None\<rparr> \<longrightarrow>
    normalizeUrl pf ''https://x/a/'' = Some ''https://x/a'') \<and>
   (URL_parse pf ''https://x/'' =
      Some \<lparr>url_scheme = ''https'', url_host = Some ''x'', url_path = ''/'', url_opaque = False,
            url_query = None, url_fragment = None\<rparr> \<longrightarrow>
    normalizeUrl pf ''https://x/'' = Some ''https://x/'')"
proof (intro conjI impI allI)
  fix u
  assume a: "URL_parse pf raw = Some u"
  let ?v = "normalize_url_object u"
  have "URL_toString ?v =
             url_scheme u @ '':'' @
             (case url_host u of
                Some h \<Rightarrow> ''//'' @ h
              | None \<Rightarrow> if \<not> url_opaque u \<and> prefix ''//'' (url_path ?v) then ''/.'' else []) @
             url_path ?v @ (case url_query u of None \<Rightarrow> [] | Some q \<Rightarrow> ''?'' @ q)"
    by (simp add: URL_toString_def normalize_keeps_fields)
  with a show "\<exists>v. normalizeUrl pf raw = Some (URL_toString v) \<and>
           url_fragment v = None \<and> url_query v = url_query u \<and>
           url_scheme v = url_scheme u \<and> url_host v = url_host u \<and>
           url_opaque v = url_opaque u \<and>
           URL_toString v =
             url_scheme u @ '':'' @
             (case url_host u of
                Some h \<Rightarrow> ''//'' @ h
              | None \<Rightarrow> if \<not> url_opaque u \<and> prefix ''//'' (url_path v) then ''/.'' else []) @
             url_path v @ (case url_query u of None \<Rightarrow> [] | Some q \<Rightarrow> ''?'' @ q)"
    by (intro exI [of _ ?v]) (simp add: normalizeUrl_def normalize_keeps_fields)
next
  fix u
  assume a: "URL_parse pf raw = Some u \<and> \<not> url_opaque u"
  then show "let path' = (if url_path u \<noteq> ''/'' \<and> suffix ''/'' (url_path u)
                    then butlast (url_path u) else url_path u)
       in normalizeUrl pf raw = Some (URL_toString (u\<lparr>url_path := path', url_fragment := None\<rparr>)) \<and>
          normalizeUrl pf raw =
            Some (url_scheme u @ '':'' @
                  (case url_host u of
                     Some h \<Rightarrow> ''//'' @ h
                   | None \<Rightarrow> if prefix ''//'' path' then ''/.'' else []) @
                  path' @ (case url_query u of None \<Rightarrow> [] | Some q \<Rightarrow> ''?'' @ q))"
    by (auto simp add: normalizeUrl_def normalize_hierarchical URL_toString_def Let_def)
next
  fix u
  assume a: "URL_parse pf raw = Some u \<and> url_opaque u"
  then show "let path' = (if url_query u = None
                    then rev (dropWhile (\<lambda>c. c = CHR 0x20) (rev (url_path u)))
                    else url_path u)
       in normalizeUrl pf raw = Some (URL_toString (u\<lparr>url_path := path', url_fragment := None\<rparr>)) \<and>
          (suffix ''/'' (url_path u) \<longrightarrow> path' = url_path u)"
    by (auto simp add: normalizeUrl_def normalize_opaque URL_clear_hash_def Let_def
        URL_toString_def strip_spaces_keeps_slash)
next
  assume "URL_parse pf raw = None"
  then show "normalizeUrl pf raw = None" by (simp add: normalizeUrl_def)
next
  assume "URL_parse pf ''https://x/a/'' =
      Some \<lparr>url_scheme = ''https'', url_host = Some ''x'', url_path = ''/a/'', url_opaque = False,
            url_query = None, url_fragment = None\<rparr>"
  then show "normalizeUrl pf ''https://x/a/'' = Some ''https://x/a''"
    by (simp add: normalizeUrl_def normalize_hierarchical URL_toString_def suffix_single)
next
  assume "URL_parse pf ''https://x/'' =
      Some \<lparr>url_scheme = ''https'', url_host = Some ''x'', url_path = ''/'', url_opaque = False,
            url_query = None, url_fragment = None\<rparr>"
  then show "normalizeUrl pf ''https://x/'' = Some ''https://x/''"
    by (simp add: normalizeUrl_def normalize_hierarchical URL_toString_def suffix_single)
qed

section \<open>The reference parser reads its own serialisations\<close>

lemma takeWhile_all: "list_all P xs \<Longrightarrow> ys = [] \<or> \<not> P (hd ys) \<Longrightarrow> takeWhile P (xs @ ys) = xs"
  by (cases ys) (auto simp: list_all_iff)

lemma dropWhile_all: "list_all P xs \<Longrightarrow> dropWhile P (xs @ ys) = dropWhile P ys"
  by (auto simp: list_all_iff)

lemma dropWhile_stop: "ys = [] \<or> \<not> P (hd ys) \<Longrightarrow> dropWhile P ys = ys"
  by (cases ys) auto

lemma takeWhile_stop: "ys = [] \<or> \<not> P (hd ys) \<Longrightarrow> takeWhile P ys = []"
  by (cases ys) auto

lemma takeWhile_char: "c \<notin> set xs \<Longrightarrow> takeWhile (\<lambda>x. x \<noteq> c) (xs @ c # ys) = xs"
  by (induction xs) auto

lemma dropWhile_char: "c \<notin> set xs \<Longrightarrow> dropWhile (\<lambda>x. x \<noteq> c) (xs @ c # ys) = c # ys"
  by (induction xs) auto

lemma takeWhile_no_char: "c \<notin> set xs \<Longrightarrow> takeWhile (\<lambda>x. x \<noteq> c) xs = xs"
  by (induction xs) auto

lemma dropWhile_no_char: "c \<notin> set xs \<Longrightarrow> dropWhile (\<lambda>x. x \<noteq> c) xs = []"
  by (induction xs) auto

lemma url_tail_head:
  "url_tail u = [] \<or> hd (url_tail u) = CHR ''?'' \<or> hd (url_tail u) = CHR ''#''"
  by (auto simp: url_tail_def split: option.splits)

lemma url_tail_stops:
  "url_tail u = [] \<or> \<not> not_path_end (hd (url_tail u))"
  "url_tail u = [] \<or> \<not> not_host_end (hd (url_tail u))"
  using url_tail_head [of u] by (auto simp: not_path_end_def not_host_end_def)

lemma parse_query_tail:
  "(case url_query u of None \<Rightarrow> True | Some q \<Rightarrow> CHR ''#'' \<notin> set q) \<Longrightarrow>
   parse_query (url_tail u) = url_query u"
  by (auto simp: parse_query_def url_tail_def takeWhile_char takeWhile_no_char
      split: option.splits)

lemma parse_fragment_tail:
  "(case url_query u of None \<Rightarrow> True | Some q \<Rightarrow> CHR ''#'' \<notin> set q) \<Longrightarrow>
   parse_fragment (url_tail u) = url_fragment u"
  by (auto simp: parse_fragment_def url_tail_def dropWhile_char dropWhile_no_char Let_def
      split: option.splits)

lemma scheme_char_not_colon: "is_scheme_char c \<Longrightarrow> c \<noteq> CHR '':''"
  by (auto simp: is_scheme_char_def is_alpha_def is_upper_def is_lower_def is_digit_def)

lemma scheme_split:
  "list_all is_scheme_char s \<Longrightarrow>
   takeWhile (\<lambda>c. c \<noteq> CHR '':'') (s @ CHR '':'' # r) = s \<and>
   dropWhile (\<lambda>c. c \<noteq> CHR '':'') (s @ CHR '':'' # r) = CHR '':'' # r"
  using scheme_char_not_colon by (auto simp: list_all_iff takeWhile_char dropWhile_char)

lemma toString_tail:
  "URL_toString u =
     url_scheme u @ CHR '':'' #
       ((case url_host u of
           Some h \<Rightarrow> ''//'' @ h
         | None \<Rightarrow> if \<not> url_opaque u \<and> prefix ''//'' (url_path u) then ''/.'' else []) @
        url_path u @ url_tail u)"
  by (simp add: URL_toString_def url_tail_def)

lemma path_tail_stops:
  "url_path u = [] \<or> hd (url_path u) = CHR ''/'' \<Longrightarrow>
   url_path u @ url_tail u = [] \<or> \<not> not_host_end (hd (url_path u @ url_tail u))"
  using url_tail_stops(2) [of u] by (cases "url_path u") (auto simp: not_host_end_def)

lemma simple_parse_toString_host:
  assumes wf: "simple_url_wf u" and h: "url_host u = Some h"
  shows "simple_URL_parse (URL_toString u) = Some u"
proof -
  let ?rest = "h @ url_path u @ url_tail u"
  from wf h have sch: "url_scheme u \<noteq> []" "is_alpha (hd (url_scheme u))"
    "list_all is_scheme_char (url_scheme u)" "toLowerCase (url_scheme u) = url_scheme u"
    and pth: "list_all not_path_end (url_path u)" "url_path u = [] \<or> hd (url_path u) = CHR ''/''"
    and hst: "list_all not_host_end h" "\<not> url_opaque u"
    and spc: "special_scheme (url_scheme u) \<Longrightarrow> h \<noteq> [] \<and> url_path u \<noteq> []"
    and qry: "case url_query u of None \<Rightarrow> True | Some q \<Rightarrow> CHR ''#'' \<notin> set q"
    by (auto simp: simple_url_wf_def split: if_splits)
  have str: "URL_toString u = url_scheme u @ CHR '':'' # (''//'' @ ?rest)"
    using h by (simp add: toString_tail)
  have s1: "takeWhile (\<lambda>c. c \<noteq> CHR '':'') (URL_toString u) = url_scheme u"
    and s2: "dropWhile (\<lambda>c. c \<noteq> CHR '':'') (URL_toString u) = CHR '':'' # (''//'' @ ?rest)"
    unfolding str using scheme_split [OF sch(3)] by blast+
  have h1: "takeWhile not_host_end ?rest = h"
    using takeWhile_all [of not_host_end h "url_path u @ url_tail u", OF hst(1) path_tail_stops [OF pth(2)]] .
  have h2: "dropWhile not_host_end ?rest = url_path u @ url_tail u"
    using dropWhile_all [OF hst(1)] dropWhile_stop [of "url_path u @ url_tail u" not_host_end, OF path_tail_stops [OF pth(2)]] by simp
  have p1: "takeWhile not_path_end (url_path u @ url_tail u) = url_path u"
    using takeWhile_all [of not_path_end "url_path u" "url_tail u", OF pth(1) url_tail_stops(1)] .
  have p2: "dropWhile not_path_end (url_path u @ url_tail u) = url_tail u"
    using dropWhile_all [OF pth(1)] dropWhile_stop [of "url_tail u" not_path_end, OF url_tail_stops(1)] by simp
  have "simple_URL_parse (URL_toString u) =
        Some \<lparr>url_scheme = url_scheme u, url_host = Some h, url_path = url_path u,
              url_opaque = False, url_query = url_query u, url_fragment = url_fragment u\<rparr>"
    unfolding simple_URL_parse_def s1 s2 Let_def
    using sch spc by (auto simp add: h1 h2 p1 p2 parse_query_tail [OF qry] parse_fragment_tail [OF qry])
  with h hst(2) show ?thesis by simp
qed

lemma no_double_slash_tail:
  "\<not> prefix ''//'' p \<Longrightarrow> \<not> prefix ''//'' (p @ url_tail u)"
proof (cases p)
  case Nil
  then show ?thesis using url_tail_head [of u] by (cases "url_tail u") auto
next
  case (Cons c cs)
  assume "\<not> prefix ''//'' p"
  with Cons show ?thesis using url_tail_head [of u] by (cases cs; cases "url_tail u") auto
qed

lemma simple_parse_toString_no_host:
  assumes wf: "simple_url_wf u" and h: "url_host u = None"
  shows "simple_URL_parse (URL_toString u) = Some u"
proof -
  from wf h have sch: "url_scheme u \<noteq> []" "is_alpha (hd (url_scheme u))"
    "list_all is_scheme_char (url_scheme u)" "toLowerCase (url_scheme u) = url_scheme u"
    and pth: "list_all not_path_end (url_path u)" "\<not> prefix ''//'' (url_path u)"
    and opq: "url_opaque u = (\<not> prefix ''/'' (url_path u))"
    and spc: "\<not> special_scheme (url_scheme u)"
    and qry: "case url_query u of None \<Rightarrow> True | Some q \<Rightarrow> CHR ''#'' \<notin> set q"
    by (auto simp: simple_url_wf_def)
  have str: "URL_toString u = url_scheme u @ CHR '':'' # (url_path u @ url_tail u)"
    using h pth(2) by (simp add: toString_tail)
  have s1: "takeWhile (\<lambda>c. c \<noteq> CHR '':'') (URL_toString u) = url_scheme u"
    and s2: "dropWhile (\<lambda>c. c \<noteq> CHR '':'') (URL_toString u) = CHR '':'' # (url_path u @ url_tail u)"
    unfolding str using scheme_split [OF sch(3)] by blast+
  have nd: "\<not> prefix ''//'' (url_path u @ url_tail u)"
    by (rule no_double_slash_tail [OF pth(2)])
  have p1: "takeWhile not_path_end (url_path u @ url_tail u) = url_path u"
    using takeWhile_all [of not_path_end "url_path u" "url_tail u", OF pth(1) url_tail_stops(1)] .
  have p2: "dropWhile not_path_end (url_path u @ url_tail u) = url_tail u"
    using dropWhile_all [OF pth(1)] dropWhile_stop [of "url_tail u" not_path_end, OF url_tail_stops(1)] by simp
  have "simple_URL_parse (URL_toString u) =
        Some \<lparr>url_scheme = url_scheme u, url_host = None, url_path = url_path u,
              url_opaque = (\<not> prefix ''/'' (url_path u)), url_query = url_query u,
              url_fragment = url_fragment u\<rparr>"
    unfolding simple_URL_parse_def s1 s2 Let_def
    using sch spc nd by (auto simp add: p1 p2 parse_query_tail [OF qry] parse_fragment_tail [OF qry])
  with h opq show ?thesis by simp
qed

lemma simple_parse_toString: "simple_url_wf u \<Longrightarrow> simple_URL_parse (URL_toString u) = Some u"
  by (cases "url_host u") (simp_all add: simple_parse_toString_host simple_parse_toString_no_host)

lemma lower_char_scheme:
  "is_scheme_char c \<Longrightarrow> is_scheme_char (lower_char c)"
  "is_alpha c \<Longrightarrow> is_alpha (lower_char c)"
  by (auto simp: is_scheme_char_def is_alpha_def is_upper_def is_lower_def is_digit_def lower_char_def
      Let_def)

lemma lower_char_idem: "lower_char (lower_char c) = lower_char c"
  using of_char_mod_256 [of c, where ?'a = nat]
  by (auto simp: lower_char_def Let_def)

lemma toLowerCase_scheme:
  "list_all is_scheme_char s \<Longrightarrow> list_all is_scheme_char (toLowerCase s)"
  "toLowerCase (toLowerCase s) = toLowerCase s"
  "s \<noteq> [] \<Longrightarrow> is_alpha (hd s) \<Longrightarrow> is_alpha (hd (toLowerCase s))"
  by (auto simp: toLowerCase_def list_all_iff lower_char_scheme lower_char_idem hd_map)

lemma toLowerCase_Nil [simp]: "toLowerCase s = [] \<longleftrightarrow> s = []"
  by (simp add: toLowerCase_def)

lemma parse_query_no_hash:
  "case parse_query r of None \<Rightarrow> True | Some q \<Rightarrow> CHR ''#'' \<notin> set q"
  by (auto simp: parse_query_def dest: set_takeWhileD)

lemma takeWhile_list_all: "list_all P (takeWhile P xs)"
  by (auto simp: list_all_iff dest: set_takeWhileD)

lemma path_after_host:
  "takeWhile not_path_end (dropWhile not_host_end r) = [] \<or>
   hd (takeWhile not_path_end (dropWhile not_host_end r)) = CHR ''/''"
proof (cases "dropWhile not_host_end r")
  case Nil
  then show ?thesis by (simp only: takeWhile.simps simp_thms)
next
  case (Cons c cs)
  then have "\<not> not_host_end c" using hd_dropWhile [of not_host_end r] by simp
  with Cons show ?thesis by (auto simp: not_host_end_def not_path_end_def)
qed

lemma takeWhile_no_double_slash:
  "\<not> prefix ''//'' r \<Longrightarrow> \<not> prefix ''//'' (takeWhile P r)"
  using prefix_order.trans [OF _ takeWhile_is_prefix] by blast

lemma simple_parse_wf:
  assumes "simple_URL_parse raw = Some u"
  shows "simple_url_wf u"
proof -
  let ?sch = "takeWhile (\<lambda>c. c \<noteq> CHR '':'') raw"
  let ?rest = "drop 1 (dropWhile (\<lambda>c. c \<noteq> CHR '':'') raw)"
  from assms have sch: "?sch \<noteq> []" "is_alpha (hd ?sch)" "list_all is_scheme_char ?sch"
    by (auto simp: simple_URL_parse_def Let_def split: if_splits)
  show ?thesis
  proof (cases "prefix ''//'' ?rest")
    case True
    let ?r1 = "drop 2 ?rest"
    let ?path = "takeWhile not_path_end (dropWhile not_host_end ?r1)"
    from assms sch True have u: "u = \<lparr>url_scheme = toLowerCase ?sch,
        url_host = Some (takeWhile not_host_end ?r1),
        url_path = (if ?path = [] \<and> special_scheme (toLowerCase ?sch) then ''/'' else ?path),
        url_opaque = False,
        url_query = parse_query (dropWhile not_path_end (dropWhile not_host_end ?r1)),
        url_fragment = parse_fragment (dropWhile not_path_end (dropWhile not_host_end ?r1))\<rparr>"
      and hne: "special_scheme (toLowerCase ?sch) \<Longrightarrow> takeWhile not_host_end ?r1 \<noteq> []"
      by (auto simp: simple_URL_parse_def Let_def split: if_splits)
    show ?thesis
      unfolding simple_url_wf_def u
      using sch hne toLowerCase_scheme [of ?sch] parse_query_no_hash path_after_host [of ?r1]
      by (auto simp: takeWhile_list_all not_path_end_def)
  next
    case False
    let ?path = "takeWhile not_path_end ?rest"
    from assms sch False have u: "u = \<lparr>url_scheme = toLowerCase ?sch, url_host = None,
        url_path = ?path, url_opaque = (\<not> prefix ''/'' ?path),
        url_query = parse_query (dropWhile not_path_end ?rest),
        url_fragment = parse_fragment (dropWhile not_path_end ?rest)\<rparr>"
      and nsp: "\<not> special_scheme (toLowerCase ?sch)"
      by (auto simp: simple_URL_parse_def Let_def split: if_splits)
    show ?thesis
      unfolding simple_url_wf_def u
      using sch nsp toLowerCase_scheme [of ?sch] parse_query_no_hash
        takeWhile_no_double_slash [OF False]
      by (auto simp: takeWhile_list_all)
  qed
qed

lemma prefix_keeps_path:
  assumes "prefix q p"
  shows "list_all not_path_end p \<Longrightarrow> list_all not_path_end q"
    and "\<not> prefix ''//'' p \<Longrightarrow> \<not> prefix ''//'' q"
    and "\<not> prefix ''/'' p \<Longrightarrow> \<not> prefix ''/'' q"
  using assms by (auto simp: list_all_iff dest: set_mono_prefix prefix_order.trans)

lemma strip_is_prefix: "prefix (rev (dropWhile P (rev p))) p"
proof -
  have "p = rev (dropWhile P (rev p)) @ rev (takeWhile P (rev p))"
    by (metis rev_append rev_rev_ident takeWhile_dropWhile_id)
  then show ?thesis by (metis prefixI)
qed

lemma butlast_slash_path:
  assumes "p \<noteq> ''/''" "suffix ''/'' p" "hd p = CHR ''/''"
  shows "butlast p \<noteq> []" "hd (butlast p) = CHR ''/''" "prefix ''/'' (butlast p)"
proof -
  from assms obtain c cs where p: "p = c # cs" "cs \<noteq> []" "c = CHR ''/''"
    by (cases p) (auto simp: suffix_single)
  then show "butlast p \<noteq> []" "hd (butlast p) = CHR ''/''" "prefix ''/'' (butlast p)"
    by auto
qed

lemma normalize_keeps_wf:
  assumes wf: "simple_url_wf u"
  shows "simple_url_wf (normalize_url_object u)"
proof (cases "url_opaque u")
  case True
  with wf have h: "url_host u = None" by (auto simp: simple_url_wf_def split: option.splits)
  let ?q = "rev (dropWhile (\<lambda>c. c = CHR 0x20) (rev (url_path u)))"
  note pk = prefix_keeps_path [OF strip_is_prefix [of "\<lambda>c. c = CHR 0x20" "url_path u"]]
  from wf True h pk show ?thesis
    by (auto simp: normalize_opaque URL_clear_hash_def Let_def simple_url_wf_def)
next
  case False
  show ?thesis
  proof (cases "url_path u \<noteq> ''/'' \<and> suffix ''/'' (url_path u)")
    case strip: True
    note pk = prefix_keeps_path [OF prefixeq_butlast [of "url_path u"]]
    have hd: "hd (url_path u) = CHR ''/'' \<Longrightarrow>
      butlast (url_path u) \<noteq> [] \<and> hd (butlast (url_path u)) = CHR ''/'' \<and>
      prefix ''/'' (butlast (url_path u))"
      using butlast_slash_path [of "url_path u"] strip by blast
    have ne: "url_path u \<noteq> []" using strip by (auto simp: suffix_single)
    have pre: "prefix ''/'' (url_path u) \<Longrightarrow> hd (url_path u) = CHR ''/''"
      by (cases "url_path u") auto
    from wf False strip pk hd ne pre show ?thesis
      by (cases "url_host u") (auto simp: normalize_hierarchical simple_url_wf_def split: if_splits)
  next
    case keep: False
    with wf False show ?thesis
      by (cases "url_host u") (auto simp: normalize_hierarchical simple_url_wf_def split: if_splits)
  qed
qed

lemma simple_parse_normalized:
  "simple_URL_parse raw = Some u \<Longrightarrow>
   simple_URL_parse (URL_toString (normalize_url_object u)) = Some (normalize_url_object u)"
  by (intro simple_parse_toString normalize_keeps_wf simple_parse_wf)

lemma reference_normalizeUrl_idempotent:
  assumes "simple_URL_parse raw = Some u"
    and "url_opaque u \<or> \<not> suffix ''//'' (url_path u) \<or> url_path u = ''//''"
  shows "\<exists>s. normalizeUrl (simple_platform tz pages net file) raw = Some s \<and>
             normalizeUrl (simple_platform tz pages net file) s =
             normalizeUrl (simple_platform tz pages net file) raw"
  using assms(1) simple_parse_normalized [OF assms(1)] normalize_idem [OF assms(2)]
  by (simp add: normalizeUrl_def simple_platform_def)


section \<open>Properties of the sidebar links\<close>

lemma visit_anchor_target:
  "visit_anchor pf baseUrl links a =
     (case anchor_target pf baseUrl a of
        None \<Rightarrow> links
      | Some absUrl \<Rightarrow> Set_add links (normalizeUrl pf absUrl))"
  by (simp add: visit_anchor_def anchor_target_def split: option.splits)

lemma visit_anchors_targets:
  "foldl (visit_anchor pf baseUrl) links as =
   foldl Set_add links (map (normalizeUrl pf) (List.map_filter (anchor_target pf baseUrl) as))"
  by (induction as arbitrary: links)
     (simp_all add: visit_anchor_target map_filter_simps split: option.splits)

lemma extractSidebarUrls_targets:
  "extractSidebarUrls pf p baseUrl =
   foldl Set_add [] (map (normalizeUrl pf) (sidebar_targets pf p baseUrl))"
  by (simp add: extractSidebarUrls_def sidebar_targets_def sidebar_anchors_def visit_anchors_targets)

lemma Set_add_all_distinct: "distinct acc \<Longrightarrow> distinct (foldl Set_add acc xs)"
  by (induction xs arbitrary: acc) (simp_all add: Set_add_def)

lemma set_Set_add_all: "set (foldl Set_add acc xs) = set acc \<union> set xs"
  by (induction xs arbitrary: acc) (auto simp: Set_add_def)

lemma anchor_target_prefix:
  "anchor_target pf baseUrl a = Some t \<Longrightarrow> prefix ''https://learn.microsoft.com/'' t"
  by (auto simp: anchor_target_def split: option.splits if_splits)

lemma normalize_keeps_domain: "on_seed_domain u \<Longrightarrow> on_seed_domain (normalize_url_object u)"
  by (simp add: on_seed_domain_def normalize_url_object_def Let_def URL_set_pathname_def
      URL_clear_hash_def)


lemma sidebar_target_prefix:
  "t \<in> set (sidebar_targets pf p baseUrl) \<Longrightarrow> prefix ''https://learn.microsoft.com/'' t"
  by (auto simp: sidebar_targets_def List.map_filter_def dest: anchor_target_prefix)


text \<open>
  Claim C9, as amended. The result of \<open>extractSidebarUrls\<close> has no member twice, and it is
  already normalised: it is the set of the \<open>normalizeUrl\<close> results of the resolved links,
  in the order of their first occurrence. The loop normalises each member again, and
  what it puts into the queue is the result of that second normalisation.
\<close>

theorem sidebar_links_deduplicated_and_normalized:
  "extractSidebarUrls pf p baseUrl =
     foldl Set_add [] (map (normalizeUrl pf) (sidebar_targets pf p baseUrl)) \<and>
   distinct (extractSidebarUrls pf p baseUrl) \<and>
   set (extractSidebarUrls pf p baseUrl) = normalizeUrl pf ` set (sidebar_targets pf p baseUrl) \<and>
   (queue (enqueue_link pf s r) = queue s \<or>
    (\<exists>norm. normalizeUrl pf (case r of None \<Rightarrow> ''null'' | Some x \<Rightarrow> x) = Some norm \<and>
            queue (enqueue_link pf s r) = queue s @ [norm]))"
proof (intro conjI)
  show "extractSidebarUrls pf p baseUrl =
     foldl Set_add [] (map (normalizeUrl pf) (sidebar_targets pf p baseUrl))"
    by (rule extractSidebarUrls_targets)
  show "distinct (extractSidebarUrls pf p baseUrl)"
    by (simp add: extractSidebarUrls_targets Set_add_all_distinct)
  show "set (extractSidebarUrls pf p baseUrl) = normalizeUrl pf ` set (sidebar_targets pf p baseUrl)"
    by (simp add: extractSidebarUrls_targets set_Set_add_all)
  show "queue (enqueue_link pf s r) = queue s \<or>
    (\<exists>norm. normalizeUrl pf (case r of None \<Rightarrow> ''null'' | Some x \<Rightarrow> x) = Some norm \<and>
            queue (enqueue_link pf s r) = queue s @ [norm])"
    by (auto simp: enqueue_link_def split: option.splits)
qed

text \<open>
  The reference parser has the property that claim C5 assumes of the platform: a string
  that starts with \<open>https://learn.microsoft.com/\<close> parses to that host.
\<close>

lemma seed_prefix_scheme:
  "takeWhile (\<lambda>c. c \<noteq> CHR '':'') (''https://learn.microsoft.com/'' @ r) = ''https''"
  "dropWhile (\<lambda>c. c \<noteq> CHR '':'') (''https://learn.microsoft.com/'' @ r) = ''://learn.microsoft.com/'' @ r"
  by simp_all

lemma seed_prefix_host:
  "takeWhile not_host_end (''learn.microsoft.com/'' @ r) = ''learn.microsoft.com''"
  "dropWhile not_host_end (''learn.microsoft.com/'' @ r) = ''/'' @ r"
  by (simp_all add: not_host_end_def)

lemma seed_prefix_facts:
  "is_alpha (CHR ''h'')" "list_all is_scheme_char ''https''" "toLowerCase ''https'' = ''https''"
  "special_scheme ''https''"
  by code_simp+

lemma simple_parse_seed_prefix:
  assumes "prefix ''https://learn.microsoft.com/'' t"
  shows "\<exists>u. simple_URL_parse t = Some u \<and> on_seed_domain u"
proof -
  from assms obtain r where t: "t = ''https://learn.microsoft.com/'' @ r"
    by (auto simp: prefix_def)
  have "simple_URL_parse t =
    Some \<lparr>url_scheme = ''https'', url_host = Some ''learn.microsoft.com'',
          url_path = ''/'' @ takeWhile not_path_end r, url_opaque = False,
          url_query = parse_query (dropWhile not_path_end r),
          url_fragment = parse_fragment (dropWhile not_path_end r)\<rparr>"
    unfolding t simple_URL_parse_def Let_def seed_prefix_scheme
    using seed_prefix_facts seed_prefix_host [of r]
    by (simp add: not_path_end_def)
  then show ?thesis by (simp add: on_seed_domain_def)
qed


lemma reference_sidebar_links_on_seed_domain:
  assumes "r \<in> set (extractSidebarUrls (simple_platform tz pages net file) p baseUrl)"
  shows "\<exists>u. r = Some (URL_toString u) \<and> on_seed_domain u"
proof -
  let ?P = "simple_platform tz pages net file"
  from assms obtain t where t: "t \<in> set (sidebar_targets ?P p baseUrl)" and r: "r = normalizeUrl ?P t"
    by (auto simp: extractSidebarUrls_targets set_Set_add_all)
  from simple_parse_seed_prefix [OF sidebar_target_prefix [OF t]]
  obtain u where u: "simple_URL_parse t = Some u" "on_seed_domain u" by blast
  from r u(1) have "r = Some (URL_toString (normalize_url_object u))"
    by (simp add: normalizeUrl_def simple_platform_def)
  with normalize_keeps_domain [OF u(2)] show ?thesis by blast
qed

section \<open>The date of a datetime attribute\<close>

lemma day_of_march15:
  fixes r :: int
  shows "0 \<le> r \<Longrightarrow> r < 86400000 \<Longrightarrow> (1710460800000 + r) div 86400000 = 19797"
  by (rule int_div_pos_eq [where r = r]) simp_all
lemma day_of_march14:
  fixes r :: int
  shows "- 86400000 \<le> r \<Longrightarrow> r < 0 \<Longrightarrow> (1710460800000 + r) div 86400000 = 19796"
  by (rule int_div_pos_eq [where r = "86400000 + r"]) simp_all
lemma civil_march: "civil_from_days 19797 = (2024, 3, 15)" "civil_from_days 19796 = (2024, 3, 14)"
  by code_simp+

lemma show_march: "show_nat 3 = ''3''" "show_nat 15 = ''15''" "show_nat 14 = ''14''" "show_nat 2024 = ''2024''"
  by code_simp+

text \<open>
  Claim C6, as amended. Let the first \<open>local-time\<close> element carry the \<open>datetime\<close> attribute
  \<open>2024-03-15T00:00:00Z\<close>, let the text of the \<open>local-time\<close> elements not have the shape
  MM/DD/YYYY, and let the platform parse the attribute to the instant 1710460800000.
  Then \<open>extractLastUpdated\<close> returns the date of that instant in the local time zone of the
  process: \<open>3/15/2024\<close> when the zone is at or east of UTC, \<open>3/14/2024\<close> when it is
  west of UTC.
\<close>

theorem extractLastUpdated_datetime_in_local_zone:
  assumes sel: "select p ''local-time[datetime]'' = e # es"
    and shape: "\<not> is_mmddyyyy (trim (all_text (e # es)))"
    and dt: "el_attr e ''datetime'' = Some ''2024-03-15T00:00:00Z''"
    and dp: "Date_parse pf ''2024-03-15T00:00:00Z'' = Some 1710460800000"
  shows "(0 \<le> tz_offset pf 1710460800000 \<and> tz_offset pf 1710460800000 < 1440 \<longrightarrow>
            extractLastUpdated pf p = ''3/15/2024'') \<and>
         (- 1440 \<le> tz_offset pf 1710460800000 \<and> tz_offset pf 1710460800000 < 0 \<longrightarrow>
            extractLastUpdated pf p = ''3/14/2024'')"
proof -
  have res: "extractLastUpdated pf p = toLocaleDateString_en_US pf 1710460800000"
    using sel shape dt dp by (simp add: extractLastUpdated_def local_time_date_def)
  show ?thesis
  proof (intro conjI impI)
    assume "0 \<le> tz_offset pf 1710460800000 \<and> tz_offset pf 1710460800000 < 1440"
    then have "(1710460800000 + tz_offset pf 1710460800000 * 60000) div 86400000 = 19797"
      by (intro day_of_march15) simp_all
    then show "extractLastUpdated pf p = ''3/15/2024''"
      by (simp add: res toLocaleDateString_en_US_def civil_march show_march)
  next
    assume "- 1440 \<le> tz_offset pf 1710460800000 \<and> tz_offset pf 1710460800000 < 0"
    then have "(1710460800000 + tz_offset pf 1710460800000 * 60000) div 86400000 = 19796"
      by (intro day_of_march14) simp_all
    then show "extractLastUpdated pf p = ''3/14/2024''"
      by (simp add: res toLocaleDateString_en_US_def civil_march show_march)
  qed
qed

section \<open>Concrete runs\<close>

text \<open>
  Claim C2 as stated fails on \<open>https://x/a//\<close>: one slash goes at each call, so
  the second call changes the result of the first.
\<close>

theorem normalizeUrl_not_idempotent_on_double_slash:
  "URL_parse (demo_platform None) ''https://x/a//'' =
     Some \<lparr>url_scheme = ''https'', url_host = Some ''x'', url_path = ''/a//'', url_opaque = False,
           url_query = None, url_fragment = None\<rparr> \<and>
   normalizeUrl (demo_platform None) ''https://x/a//'' = Some ''https://x/a/'' \<and>
   normalizeUrl (demo_platform None) ''https://x/a/'' = Some ''https://x/a'' \<and>
   normalizeUrl (demo_platform None) ''https://x/a/'' \<noteq> normalizeUrl (demo_platform None) ''https://x/a//''"
  by code_simp

text \<open>
  The amended claim C2 on \<open>https://x/a/?q=1#top\<close>.
\<close>

theorem normalizeUrl_idempotent_without_double_slash_witness:
  "URL_parse (demo_platform None) ''https://x/a/?q=1#top'' =
     Some \<lparr>url_scheme = ''https'', url_host = Some ''x'', url_path = ''/a/'', url_opaque = False,
           url_query = Some ''q=1'', url_fragment = Some ''top''\<rparr> \<and>
   URL_parse (demo_platform None)
     (URL_toString (normalize_url_object
        \<lparr>url_scheme = ''https'', url_host = Some ''x'', url_path = ''/a/'', url_opaque = False,
         url_query = Some ''q=1'', url_fragment = Some ''top''\<rparr>)) =
     Some (normalize_url_object
        \<lparr>url_scheme = ''https'', url_host = Some ''x'', url_path = ''/a/'', url_opaque = False,
         url_query = Some ''q=1'', url_fragment = Some ''top''\<rparr>) \<and>
   \<not> suffix ''//'' ''/a/'' \<and>
   normalizeUrl (demo_platform None) ''https://x/a/?q=1#top'' = Some ''https://x/a?q=1'' \<and>
   normalizeUrl (demo_platform None) ''https://x/a?q=1'' = Some ''https://x/a?q=1''"
proof -
  let ?P = "demo_platform None"
  let ?u = "\<lparr>url_scheme = ''https'', url_host = Some ''x'', url_path = ''/a/'', url_opaque = False,
           url_query = Some ''q=1'', url_fragment = Some ''top''\<rparr>"
  have h1: "URL_parse ?P ''https://x/a/?q=1#top'' = Some ?u" by code_simp
  have h2: "URL_parse ?P (URL_toString (normalize_url_object ?u)) = Some (normalize_url_object ?u)"
    by code_simp
  have h3: "\<not> suffix ''//'' ''/a/''" by code_simp
  have h3': "url_opaque ?u \<or> \<not> suffix ''//'' (url_path ?u) \<or> url_path ?u = ''//''"
    using h3 by simp
  have r: "normalizeUrl ?P ''https://x/a/?q=1#top'' = Some ''https://x/a?q=1''" by code_simp
  from normalizeUrl_idempotent_without_double_slash [OF h1 h2 h3'] r
  have "normalizeUrl ?P ''https://x/a?q=1'' = Some ''https://x/a?q=1''" by simp
  with h1 h2 h3 r show ?thesis by simp
qed

text \<open>
  Claim C3 as stated fails on \<open>mailto:a/\<close>, a valid URL with an opaque path:
  the assignment to \<open>pathname\<close> has no effect and the slash at the end of the
  path stays.
\<close>

theorem normalizeUrl_keeps_slash_of_opaque_path:
  "URL_parse (demo_platform None) ''mailto:a/'' =
     Some \<lparr>url_scheme = ''mailto'', url_host = None, url_path = ''a/'', url_opaque = True,
           url_query = None, url_fragment = None\<rparr> \<and>
   normalizeUrl (demo_platform None) ''mailto:a/'' = Some ''mailto:a/''"
  by code_simp

text \<open>
  The amended claim C3 on \<open>https://x/docs/?view=1#intro\<close>, on an input without a scheme,
  on the two URLs of the claim, and on \<open>mailto:a/?subject=x#top\<close>, whose path is opaque.
\<close>

theorem normalizeUrl_effect_witness:
  "URL_parse (demo_platform None) ''https://x/docs/?view=1#intro'' =
     Some \<lparr>url_scheme = ''https'', url_host = Some ''x'', url_path = ''/docs/'', url_opaque = False,
           url_query = Some ''view=1'', url_fragment = Some ''intro''\<rparr> \<and>
   normalizeUrl (demo_platform None) ''https://x/docs/?view=1#intro'' = Some ''https://x/docs?view=1'' \<and>
   URL_parse (demo_platform None) ''not a url'' = None \<and>
   normalizeUrl (demo_platform None) ''not a url'' = None \<and>
   URL_parse (demo_platform None) ''https://x/a/'' =
      Some \<lparr>url_scheme = ''https'', url_host = Some ''x'', url_path = ''/a/'', url_opaque = False,
            url_query = None, url_fragment = None\<rparr> \<and>
   normalizeUrl (demo_platform None) ''https://x/a/'' = Some ''https://x/a'' \<and>
   URL_parse (demo_platform None) ''https://x/'' =
      Some \<lparr>url_scheme = ''https'', url_host = Some ''x'', url_path = ''/'', url_opaque = False,
            url_query = None, url_fragment = None\<rparr> \<and>
   normalizeUrl (demo_platform None) ''https://x/'' = Some ''https://x/'' \<and>
   URL_parse (demo_platform None) ''mailto:a/?subject=x#top'' =
      Some \<lparr>url_scheme = ''mailto'', url_host = None, url_path = ''a/'', url_opaque = True,
            url_query = Some ''subject=x'', url_fragment = Some ''top''\<rparr> \<and>
   normalizeUrl (demo_platform None) ''mailto:a/?subject=x#top'' = Some ''mailto:a/?subject=x''"
proof -
  let ?P = "demo_platform None"
  let ?u = "\<lparr>url_scheme = ''https'', url_host = Some ''x'', url_path = ''/docs/'', url_opaque = False,
           url_query = Some ''view=1'', url_fragment = Some ''intro''\<rparr>"
  have h1: "URL_parse ?P ''https://x/docs/?view=1#intro'' = Some ?u" by code_simp
  have h2: "URL_parse ?P ''not a url'' = None" by code_simp
  have h3: "URL_parse ?P ''https://x/a/'' =
      Some \<lparr>url_scheme = ''https'', url_host = Some ''x'', url_path = ''/a/'', url_opaque = False,
            url_query = None, url_fragment = None\<rparr>" by code_simp
  have h4: "URL_parse ?P ''https://x/'' =
      Some \<lparr>url_scheme = ''https'', url_host = Some ''x'', url_path = ''/'', url_opaque = False,
            url_query = None, url_fragment = None\<rparr>" by code_simp
  have s: "suffix ''/'' ''/docs/''" "butlast ''/docs/'' = ''/docs''" by code_simp+
  note T = normalizeUrl_effect
  from T [of ?P "''https://x/docs/?view=1#intro''"] h1 s
  have r1: "normalizeUrl ?P ''https://x/docs/?view=1#intro'' = Some ''https://x/docs?view=1''"
    by (simp add: Let_def URL_toString_def)
  from T [of ?P "''not a url''"] h2 have r2: "normalizeUrl ?P ''not a url'' = None" by simp
  from T [of ?P "''not a url''"] h3 have r3: "normalizeUrl ?P ''https://x/a/'' = Some ''https://x/a''"
    by simp
  from T [of ?P "''not a url''"] h4 have r4: "normalizeUrl ?P ''https://x/'' = Some ''https://x/''"
    by simp
  have h5: "URL_parse ?P ''mailto:a/?subject=x#top'' =
      Some \<lparr>url_scheme = ''mailto'', url_host = None, url_path = ''a/'', url_opaque = True,
            url_query = Some ''subject=x'', url_fragment = Some ''top''\<rparr>" by code_simp
  from T [of ?P "''mailto:a/?subject=x#top''"] h5
  have r5: "normalizeUrl ?P ''mailto:a/?subject=x#top'' = Some ''mailto:a/?subject=x''"
    by (simp add: Let_def URL_toString_def)
  from h1 h2 h3 h4 h5 r1 r2 r3 r4 r5 show ?thesis by simp
qed

text \<open>
  Claim C4 as stated fails on a seed file that names one page twice: both lines normalise
  to the same URL, and the queue holds it twice before the first iteration.
\<close>

theorem duplicate_seeds_are_queued_twice:
  "seedUrls_of (demo_platform None) twice_seed_file = [''https://learn.microsoft.com/a'', ''https://learn.microsoft.com/a''] \<and>
   queue (crawl_run (demo_platform None) (set (seedUrls_of (demo_platform None) twice_seed_file)) 0 (initial_state (seedUrls_of (demo_platform None) twice_seed_file))) = [''https://learn.microsoft.com/a'', ''https://learn.microsoft.com/a''] \<and>
   \<not> distinct (queue (crawl_run (demo_platform None) (set (seedUrls_of (demo_platform None) twice_seed_file)) 0 (initial_state (seedUrls_of (demo_platform None) twice_seed_file))))"
  by code_simp

text \<open>
  The amended claim C4 on the small site after the first iteration, with one seed and
  with the seed file that names the seed page twice: there the page is visited and
  still in the queue once, and the next iteration only removes that entry.
\<close>

theorem frontier_queue_without_duplicates_witness:
  "distinct (seedUrls_of (demo_platform None) one_seed_file) \<and>
   distinct (queue (crawl_run (demo_platform None) (set (seedUrls_of (demo_platform None) one_seed_file)) 1 (initial_state (seedUrls_of (demo_platform None) one_seed_file)))) \<and>
   visited (crawl_run (demo_platform None) (set (seedUrls_of (demo_platform None) one_seed_file)) 1 (initial_state (seedUrls_of (demo_platform None) one_seed_file))) \<inter> set (queue (crawl_run (demo_platform None) (set (seedUrls_of (demo_platform None) one_seed_file)) 1 (initial_state (seedUrls_of (demo_platform None) one_seed_file)))) = {} \<and>
   queued (crawl_run (demo_platform None) (set (seedUrls_of (demo_platform None) one_seed_file)) 1 (initial_state (seedUrls_of (demo_platform None) one_seed_file))) = visited (crawl_run (demo_platform None) (set (seedUrls_of (demo_platform None) one_seed_file)) 1 (initial_state (seedUrls_of (demo_platform None) one_seed_file))) \<union> set (queue (crawl_run (demo_platform None) (set (seedUrls_of (demo_platform None) one_seed_file)) 1 (initial_state (seedUrls_of (demo_platform None) one_seed_file)))) \<and>
   queue (crawl_run (demo_platform None) (set (seedUrls_of (demo_platform None) one_seed_file)) 1 (initial_state (seedUrls_of (demo_platform None) one_seed_file))) = [''https://learn.microsoft.com/b''] \<and>
   ''https://learn.microsoft.com/b'' \<in> visited (loop_body (demo_platform None) (set (seedUrls_of (demo_platform None) one_seed_file)) (crawl_run (demo_platform None) (set (seedUrls_of (demo_platform None) one_seed_file)) 1 (initial_state (seedUrls_of (demo_platform None) one_seed_file)))) \<and>
   ''https://learn.microsoft.com/a'' \<in> visited (crawl_run (demo_platform None) (set (seedUrls_of (demo_platform None) one_seed_file)) 1 (initial_state (seedUrls_of (demo_platform None) one_seed_file))) \<and>
   count_list (queue (crawl_run (demo_platform None) (set (seedUrls_of (demo_platform None) one_seed_file)) 1 (crawl_run (demo_platform None) (set (seedUrls_of (demo_platform None) one_seed_file)) 1 (initial_state (seedUrls_of (demo_platform None) one_seed_file))))) ''https://learn.microsoft.com/a'' \<le> count_list (queue (crawl_run (demo_platform None) (set (seedUrls_of (demo_platform None) one_seed_file)) 1 (initial_state (seedUrls_of (demo_platform None) one_seed_file)))) ''https://learn.microsoft.com/a'' \<and>
   (seedUrls_of (demo_platform None) twice_seed_file) = [''https://learn.microsoft.com/a'', ''https://learn.microsoft.com/a''] \<and>
   queue (crawl_run (demo_platform None) (set (seedUrls_of (demo_platform None) twice_seed_file)) 0 (initial_state (seedUrls_of (demo_platform None) twice_seed_file))) = (seedUrls_of (demo_platform None) twice_seed_file) \<and>
   queue (crawl_run (demo_platform None) (set (seedUrls_of (demo_platform None) twice_seed_file)) 1 (initial_state (seedUrls_of (demo_platform None) twice_seed_file))) = [''https://learn.microsoft.com/a'', ''https://learn.microsoft.com/b''] \<and>
   ''https://learn.microsoft.com/a'' \<in> visited (crawl_run (demo_platform None) (set (seedUrls_of (demo_platform None) twice_seed_file)) 1 (initial_state (seedUrls_of (demo_platform None) twice_seed_file))) \<and>
   count_list (queue (crawl_run (demo_platform None) (set (seedUrls_of (demo_platform None) twice_seed_file)) 1 (initial_state (seedUrls_of (demo_platform None) twice_seed_file)))) ''https://learn.microsoft.com/a'' + (if ''https://learn.microsoft.com/a'' \<in> visited (crawl_run (demo_platform None) (set (seedUrls_of (demo_platform None) twice_seed_file)) 1 (initial_state (seedUrls_of (demo_platform None) twice_seed_file))) then 1 else 0)
     \<le> (if ''https://learn.microsoft.com/a'' \<in> set (seedUrls_of (demo_platform None) twice_seed_file) then count_list (seedUrls_of (demo_platform None) twice_seed_file) ''https://learn.microsoft.com/a'' else 1) \<and>
   loop_body (demo_platform None) (set (seedUrls_of (demo_platform None) twice_seed_file)) (crawl_run (demo_platform None) (set (seedUrls_of (demo_platform None) twice_seed_file)) 1 (initial_state (seedUrls_of (demo_platform None) twice_seed_file))) = (crawl_run (demo_platform None) (set (seedUrls_of (demo_platform None) twice_seed_file)) 1 (initial_state (seedUrls_of (demo_platform None) twice_seed_file)))\<lparr>queue := [''https://learn.microsoft.com/b'']\<rparr>"
proof -
  have d: "distinct (seedUrls_of (demo_platform None) one_seed_file)" by code_simp
  have q: "queue (crawl_run (demo_platform None) (set (seedUrls_of (demo_platform None) one_seed_file)) 1 (initial_state (seedUrls_of (demo_platform None) one_seed_file))) = [''https://learn.microsoft.com/b'']" by code_simp
  have v: "''https://learn.microsoft.com/a'' \<in> visited (crawl_run (demo_platform None) (set (seedUrls_of (demo_platform None) one_seed_file)) 1 (initial_state (seedUrls_of (demo_platform None) one_seed_file)))" by code_simp
  note T = frontier_queue_without_duplicates [of "demo_platform None" one_seed_file 1]
  from T d have c1: "distinct (queue (crawl_run (demo_platform None) (set (seedUrls_of (demo_platform None) one_seed_file)) 1 (initial_state (seedUrls_of (demo_platform None) one_seed_file)))) \<and>
   visited (crawl_run (demo_platform None) (set (seedUrls_of (demo_platform None) one_seed_file)) 1 (initial_state (seedUrls_of (demo_platform None) one_seed_file))) \<inter> set (queue (crawl_run (demo_platform None) (set (seedUrls_of (demo_platform None) one_seed_file)) 1 (initial_state (seedUrls_of (demo_platform None) one_seed_file)))) = {} \<and>
   queued (crawl_run (demo_platform None) (set (seedUrls_of (demo_platform None) one_seed_file)) 1 (initial_state (seedUrls_of (demo_platform None) one_seed_file))) = visited (crawl_run (demo_platform None) (set (seedUrls_of (demo_platform None) one_seed_file)) 1 (initial_state (seedUrls_of (demo_platform None) one_seed_file))) \<union> set (queue (crawl_run (demo_platform None) (set (seedUrls_of (demo_platform None) one_seed_file)) 1 (initial_state (seedUrls_of (demo_platform None) one_seed_file))))" by blast
  from T q have c2: "''https://learn.microsoft.com/b'' \<in> visited (loop_body (demo_platform None) (set (seedUrls_of (demo_platform None) one_seed_file)) (crawl_run (demo_platform None) (set (seedUrls_of (demo_platform None) one_seed_file)) 1 (initial_state (seedUrls_of (demo_platform None) one_seed_file))))" by blast
  from T v have c3: "count_list (queue (crawl_run (demo_platform None) (set (seedUrls_of (demo_platform None) one_seed_file)) 1 (crawl_run (demo_platform None) (set (seedUrls_of (demo_platform None) one_seed_file)) 1 (initial_state (seedUrls_of (demo_platform None) one_seed_file))))) ''https://learn.microsoft.com/a'' \<le> count_list (queue (crawl_run (demo_platform None) (set (seedUrls_of (demo_platform None) one_seed_file)) 1 (initial_state (seedUrls_of (demo_platform None) one_seed_file)))) ''https://learn.microsoft.com/a''"
    by blast
  have e: "(seedUrls_of (demo_platform None) twice_seed_file) = [''https://learn.microsoft.com/a'', ''https://learn.microsoft.com/a'']" by code_simp
  have q2: "queue (crawl_run (demo_platform None) (set (seedUrls_of (demo_platform None) twice_seed_file)) 1 (initial_state (seedUrls_of (demo_platform None) twice_seed_file))) = [''https://learn.microsoft.com/a'', ''https://learn.microsoft.com/b'']" by code_simp
  have v2: "''https://learn.microsoft.com/a'' \<in> visited (crawl_run (demo_platform None) (set (seedUrls_of (demo_platform None) twice_seed_file)) 1 (initial_state (seedUrls_of (demo_platform None) twice_seed_file)))" by code_simp
  note T2 = frontier_queue_without_duplicates [of "demo_platform None" twice_seed_file 1]
  from T2 have c4: "count_list (queue (crawl_run (demo_platform None) (set (seedUrls_of (demo_platform None) twice_seed_file)) 1 (initial_state (seedUrls_of (demo_platform None) twice_seed_file)))) ''https://learn.microsoft.com/a'' + (if ''https://learn.microsoft.com/a'' \<in> visited (crawl_run (demo_platform None) (set (seedUrls_of (demo_platform None) twice_seed_file)) 1 (initial_state (seedUrls_of (demo_platform None) twice_seed_file))) then 1 else 0)
     \<le> (if ''https://learn.microsoft.com/a'' \<in> set (seedUrls_of (demo_platform None) twice_seed_file) then count_list (seedUrls_of (demo_platform None) twice_seed_file) ''https://learn.microsoft.com/a'' else 1)" by blast
  from T2 have c5: "queue (crawl_run (demo_platform None) (set (seedUrls_of (demo_platform None) twice_seed_file)) 0 (initial_state (seedUrls_of (demo_platform None) twice_seed_file))) = (seedUrls_of (demo_platform None) twice_seed_file)" by blast
  from T2 q2 v2 have c6: "loop_body (demo_platform None) (set (seedUrls_of (demo_platform None) twice_seed_file)) (crawl_run (demo_platform None) (set (seedUrls_of (demo_platform None) twice_seed_file)) 1 (initial_state (seedUrls_of (demo_platform None) twice_seed_file))) = (crawl_run (demo_platform None) (set (seedUrls_of (demo_platform None) twice_seed_file)) 1 (initial_state (seedUrls_of (demo_platform None) twice_seed_file)))\<lparr>queue := [''https://learn.microsoft.com/b'']\<rparr>" by blast
  from d q v c1 c2 c3 e q2 v2 c4 c5 c6 show ?thesis by blast
qed

text \<open>
  Claim C8 on the small site: the seed \<open>/missing\<close> answers 404.
\<close>

theorem fetch_failure_skips_url_witness:
  "queue (initial_state [''https://learn.microsoft.com/missing'']) = [''https://learn.microsoft.com/missing''] \<and>
   ''https://learn.microsoft.com/missing'' \<noteq> [] \<and>
   ''https://learn.microsoft.com/missing'' \<notin> visited (initial_state [''https://learn.microsoft.com/missing'']) \<and>
   fetch_failed (fetch (demo_platform None) (pageCount (initial_state [''https://learn.microsoft.com/missing'']) + 1) ''https://learn.microsoft.com/missing'') \<and>
   loop_body (demo_platform None) {} (initial_state [''https://learn.microsoft.com/missing'']) = ((initial_state [''https://learn.microsoft.com/missing''])\<lparr>queue := [], visited := insert ''https://learn.microsoft.com/missing'' (visited (initial_state [''https://learn.microsoft.com/missing''])), pageCount := pageCount (initial_state [''https://learn.microsoft.com/missing'']) + 1, fetchLog := fetchLog (initial_state [''https://learn.microsoft.com/missing'']) @ [''https://learn.microsoft.com/missing'']\<rparr>) \<and>
   crawl_run (demo_platform None) {} (Suc 3) (initial_state [''https://learn.microsoft.com/missing'']) = crawl_run (demo_platform None) {} 3 ((initial_state [''https://learn.microsoft.com/missing''])\<lparr>queue := [], visited := insert ''https://learn.microsoft.com/missing'' (visited (initial_state [''https://learn.microsoft.com/missing''])), pageCount := pageCount (initial_state [''https://learn.microsoft.com/missing'']) + 1, fetchLog := fetchLog (initial_state [''https://learn.microsoft.com/missing'']) @ [''https://learn.microsoft.com/missing'']\<rparr>) \<and>
   ''https://learn.microsoft.com/missing'' \<in> visited (crawl_run (demo_platform None) {} 3 ((initial_state [''https://learn.microsoft.com/missing''])\<lparr>queue := [], visited := insert ''https://learn.microsoft.com/missing'' (visited (initial_state [''https://learn.microsoft.com/missing''])), pageCount := pageCount (initial_state [''https://learn.microsoft.com/missing'']) + 1, fetchLog := fetchLog (initial_state [''https://learn.microsoft.com/missing'']) @ [''https://learn.microsoft.com/missing'']\<rparr>)) \<and>
   count_list (fetchLog (crawl_run (demo_platform None) {} 3 ((initial_state [''https://learn.microsoft.com/missing''])\<lparr>queue := [], visited := insert ''https://learn.microsoft.com/missing'' (visited (initial_state [''https://learn.microsoft.com/missing''])), pageCount := pageCount (initial_state [''https://learn.microsoft.com/missing'']) + 1, fetchLog := fetchLog (initial_state [''https://learn.microsoft.com/missing'']) @ [''https://learn.microsoft.com/missing'']\<rparr>))) ''https://learn.microsoft.com/missing'' = count_list (fetchLog ((initial_state [''https://learn.microsoft.com/missing''])\<lparr>queue := [], visited := insert ''https://learn.microsoft.com/missing'' (visited (initial_state [''https://learn.microsoft.com/missing''])), pageCount := pageCount (initial_state [''https://learn.microsoft.com/missing'']) + 1, fetchLog := fetchLog (initial_state [''https://learn.microsoft.com/missing'']) @ [''https://learn.microsoft.com/missing'']\<rparr>)) ''https://learn.microsoft.com/missing'' \<and>
   filter (\<lambda>r. URL r = ''https://learn.microsoft.com/missing'') (allRows (crawl_run (demo_platform None) {} 3 ((initial_state [''https://learn.microsoft.com/missing''])\<lparr>queue := [], visited := insert ''https://learn.microsoft.com/missing'' (visited (initial_state [''https://learn.microsoft.com/missing''])), pageCount := pageCount (initial_state [''https://learn.microsoft.com/missing'']) + 1, fetchLog := fetchLog (initial_state [''https://learn.microsoft.com/missing'']) @ [''https://learn.microsoft.com/missing'']\<rparr>))) =
     filter (\<lambda>r. URL r = ''https://learn.microsoft.com/missing'') (allRows (initial_state [''https://learn.microsoft.com/missing'']))"
proof -
  have h1: "queue (initial_state [''https://learn.microsoft.com/missing'']) = [''https://learn.microsoft.com/missing'']" by (simp add: initial_state_def)
  have h2: "''https://learn.microsoft.com/missing'' \<noteq> []" by simp
  have h3: "''https://learn.microsoft.com/missing'' \<notin> visited (initial_state [''https://learn.microsoft.com/missing''])" by (simp add: initial_state_def)
  have h4: "fetch_failed (fetch (demo_platform None) (pageCount (initial_state [''https://learn.microsoft.com/missing'']) + 1) ''https://learn.microsoft.com/missing'')" by code_simp
  from fetch_failure_skips_url [OF h1 h2 h3 h4, of "{}" 3] h1 h2 h3 h4 show ?thesis by blast
qed

text \<open>
  Claim C10 on a seed file with a blank line, a line of spaces and a line that is no URL,
  and on a missing file.
\<close>

theorem empty_seed_file_is_not_fatal_witness:
  "urls_txt (demo_platform (Some blank_seed_file)) = Some blank_seed_file \<and>
   rawList_of blank_seed_file = [''not a url''] \<and>
   normalizeUrl (demo_platform (Some blank_seed_file)) ''not a url'' = None \<and>
   seedUrls_of (demo_platform (Some blank_seed_file)) blank_seed_file = [] \<and>
   scrapeAll_state (demo_platform (Some blank_seed_file)) 0 = Some (Inr (initial_state [])) \<and>
   scrapeAll (demo_platform (Some blank_seed_file)) 0 = Some (Inr []) \<and>
   scrape_all_route (demo_platform (Some blank_seed_file)) 0 = Some (200, ''Title,URL,LastUpdated'') \<and>
   urls_txt (demo_platform None) = None \<and>
   scrapeAll (demo_platform None) 0 = Some (Inl ''urls.txt not found. Place it next to server.js.'')"
proof -
  have f: "urls_txt (demo_platform (Some blank_seed_file)) = Some blank_seed_file"
    by (simp add: demo_platform_def simple_platform_def)
  have l: "rawList_of blank_seed_file = [''not a url'']" by code_simp
  have n: "normalizeUrl (demo_platform (Some blank_seed_file)) ''not a url'' = None" by code_simp
  have m: "urls_txt (demo_platform None) = None" by (simp add: demo_platform_def simple_platform_def)
  note T = empty_seed_file_is_not_fatal
  from T [of "demo_platform (Some blank_seed_file)" blank_seed_file 0] f l n have e: "seedUrls_of (demo_platform (Some blank_seed_file)) blank_seed_file = []" by simp
  from T [of "demo_platform (Some blank_seed_file)" blank_seed_file 0] f e have
    "scrapeAll_state (demo_platform (Some blank_seed_file)) 0 = Some (Inr (initial_state [])) \<and>
     scrapeAll (demo_platform (Some blank_seed_file)) 0 = Some (Inr []) \<and>
     scrape_all_route (demo_platform (Some blank_seed_file)) 0 = Some (200, ''Title,URL,LastUpdated'')" by blast
  moreover from T [of "demo_platform None" blank_seed_file 0] m
  have "scrapeAll (demo_platform None) 0 = Some (Inl ''urls.txt not found. Place it next to server.js.'')" by blast
  ultimately show ?thesis using f l n m e by blast
qed


text \<open>
  Claim C9 as stated fails on a page whose sidebar links to
  \<open>https://learn.microsoft.com/docs/\<close>: the specification's discoverer would
  return the link as it is, \<open>extractSidebarUrls\<close> returns it without the slash.
\<close>

theorem sidebar_links_are_normalized_by_extractSidebarUrls:
  "sidebar_targets (demo_platform None) slash_link_page ''https://learn.microsoft.com/a'' = [''https://learn.microsoft.com/docs/''] \<and>
   discoverLinks_unnormalized (demo_platform None) slash_link_page ''https://learn.microsoft.com/a'' = [Some ''https://learn.microsoft.com/docs/''] \<and>
   extractSidebarUrls (demo_platform None) slash_link_page ''https://learn.microsoft.com/a'' = [Some ''https://learn.microsoft.com/docs''] \<and>
   extractSidebarUrls (demo_platform None) slash_link_page ''https://learn.microsoft.com/a'' \<noteq> discoverLinks_unnormalized (demo_platform None) slash_link_page ''https://learn.microsoft.com/a''"
  by code_simp

text \<open>
  Claim C6 as stated fails where the local time zone is west of UTC: at seven hours west
  (Los Angeles on that day) the attribute \<open>2024-03-15T00:00:00Z\<close>, the only
  date of the page, is printed as 14 March.
\<close>

theorem extractLastUpdated_march15_west_of_utc:
  "select march15_page ''local-time[datetime]'' = [mk_element [] [(''datetime'', ''2024-03-15T00:00:00Z'')]] \<and>
   simple_Date_parse ''2024-03-15T00:00:00Z'' = Some 1710460800000 \<and>
   scan_selectors march15_page date_selectors = None \<and>
   search_loose False (all_text (select march15_page ''body'')) = None \<and>
   extractLastUpdated (simple_platform (- 420) demo_pages demo_net None) march15_page = ''3/14/2024''"
proof -
  have s: "select march15_page ''local-time[datetime]'' = [mk_element [] [(''datetime'', ''2024-03-15T00:00:00Z'')]]"
    by (simp add: march15_page_def mk_page_def)
  have r: "simple_Date_parse ''2024-03-15T00:00:00Z'' = Some 1710460800000 \<and>
   scan_selectors march15_page date_selectors = None \<and>
   search_loose False (all_text (select march15_page ''body'')) = None \<and>
   extractLastUpdated (simple_platform (- 420) demo_pages demo_net None) march15_page = ''3/14/2024''"
    by code_simp
  from s r show ?thesis by blast
qed

text \<open>
  The amended claim C6 one hour east of UTC.
\<close>

theorem extractLastUpdated_datetime_in_local_zone_witness:
  "select march15_page ''local-time[datetime]'' = [mk_element [] [(''datetime'', ''2024-03-15T00:00:00Z'')]] \<and>
   \<not> is_mmddyyyy (trim (all_text [mk_element [] [(''datetime'', ''2024-03-15T00:00:00Z'')]])) \<and>
   el_attr (mk_element [] [(''datetime'', ''2024-03-15T00:00:00Z'')]) ''datetime'' = Some ''2024-03-15T00:00:00Z'' \<and>
   Date_parse (simple_platform 60 demo_pages demo_net None) ''2024-03-15T00:00:00Z'' = Some 1710460800000 \<and>
   0 \<le> tz_offset (simple_platform 60 demo_pages demo_net None) 1710460800000 \<and>
   tz_offset (simple_platform 60 demo_pages demo_net None) 1710460800000 < 1440 \<and>
   extractLastUpdated (simple_platform 60 demo_pages demo_net None) march15_page = ''3/15/2024''"
proof -
  let ?Q = "simple_platform 60 demo_pages demo_net None"
  let ?e = "mk_element [] [(''datetime'', ''2024-03-15T00:00:00Z'')]"
  have h1: "select march15_page ''local-time[datetime]'' = [?e]"
    by (simp add: march15_page_def mk_page_def)
  have h2: "\<not> is_mmddyyyy (trim (all_text [?e]))" by code_simp
  have h3: "el_attr ?e ''datetime'' = Some ''2024-03-15T00:00:00Z''" by (simp add: mk_element_def)
  have h4: "Date_parse ?Q ''2024-03-15T00:00:00Z'' = Some 1710460800000" by code_simp
  have z: "tz_offset ?Q 1710460800000 = 60" by (simp add: simple_platform_def)
  from extractLastUpdated_datetime_in_local_zone [OF h1 h2 h3 h4] z
  have "extractLastUpdated ?Q march15_page = ''3/15/2024''" by simp
  with h1 h2 h3 h4 z show ?thesis by simp
qed

end
